theory Spec2Isabelle
  imports Complex_Main
begin

section \<open>JavaScript numbers\<close>

text \<open>
  Every coordinate of the program is a JavaScript number. A finite number is modelled by
  the real it denotes (rounding to the nearest double is not modelled: arithmetic on
  finite numbers is exact); the three special values of IEEE 754 are kept, because the
  source divides without checking the divisor and JavaScript's division never throws.
  Zero is unsigned (the model has no \<open>-0\<close>).
\<close>

datatype jsnum = Num real | PosInf | NegInf | NaN

fun js_finite :: "jsnum \<Rightarrow> bool" where
  "js_finite (Num a) = True"
| "js_finite PosInf = False"
| "js_finite NegInf = False"
| "js_finite NaN = False"

text \<open>The operator \<open>*\<close>.\<close>

fun js_mul :: "jsnum \<Rightarrow> jsnum \<Rightarrow> jsnum" where
  "js_mul (Num a) (Num b) = Num (a * b)"
| "js_mul NaN b = NaN"
| "js_mul a NaN = NaN"
| "js_mul (Num a) PosInf = (if a = 0 then NaN else if 0 < a then PosInf else NegInf)"
| "js_mul (Num a) NegInf = (if a = 0 then NaN else if 0 < a then NegInf else PosInf)"
| "js_mul PosInf (Num b) = (if b = 0 then NaN else if 0 < b then PosInf else NegInf)"
| "js_mul NegInf (Num b) = (if b = 0 then NaN else if 0 < b then NegInf else PosInf)"
| "js_mul PosInf PosInf = PosInf"
| "js_mul PosInf NegInf = NegInf"
| "js_mul NegInf PosInf = NegInf"
| "js_mul NegInf NegInf = PosInf"

text \<open>The operator \<open>/\<close>: a zero divisor gives an infinity, or NaN for \<open>0 / 0\<close>.\<close>

fun js_div :: "jsnum \<Rightarrow> jsnum \<Rightarrow> jsnum" where
  "js_div (Num a) (Num b) =
     (if b = 0 then (if a = 0 then NaN else if 0 < a then PosInf else NegInf)
      else Num (a / b))"
| "js_div NaN b = NaN"
| "js_div a NaN = NaN"
| "js_div (Num a) PosInf = Num 0"
| "js_div (Num a) NegInf = Num 0"
| "js_div PosInf (Num b) = (if 0 \<le> b then PosInf else NegInf)"
| "js_div NegInf (Num b) = (if 0 \<le> b then NegInf else PosInf)"
| "js_div PosInf PosInf = NaN"
| "js_div PosInf NegInf = NaN"
| "js_div NegInf PosInf = NaN"
| "js_div NegInf NegInf = NaN"

text \<open>The operators \<open>+\<close> and \<open>-\<close>.\<close>

fun js_add :: "jsnum \<Rightarrow> jsnum \<Rightarrow> jsnum" where
  "js_add (Num a) (Num b) = Num (a + b)"
| "js_add NaN b = NaN"
| "js_add a NaN = NaN"
| "js_add (Num a) PosInf = PosInf"
| "js_add (Num a) NegInf = NegInf"
| "js_add PosInf (Num b) = PosInf"
| "js_add NegInf (Num b) = NegInf"
| "js_add PosInf PosInf = PosInf"
| "js_add PosInf NegInf = NaN"
| "js_add NegInf PosInf = NaN"
| "js_add NegInf NegInf = NegInf"

fun js_sub :: "jsnum \<Rightarrow> jsnum \<Rightarrow> jsnum" where
  "js_sub (Num a) (Num b) = Num (a - b)"
| "js_sub NaN b = NaN"
| "js_sub a NaN = NaN"
| "js_sub (Num a) PosInf = NegInf"
| "js_sub (Num a) NegInf = PosInf"
| "js_sub PosInf (Num b) = PosInf"
| "js_sub NegInf (Num b) = NegInf"
| "js_sub PosInf PosInf = NaN"
| "js_sub PosInf NegInf = PosInf"
| "js_sub NegInf PosInf = NegInf"
| "js_sub NegInf NegInf = NaN"

text \<open>The comparisons \<open><\<close> and \<open>></\<close>: false as soon as one side is NaN.\<close>

fun js_lt :: "jsnum \<Rightarrow> jsnum \<Rightarrow> bool" where
  "js_lt (Num a) (Num b) = (a < b)"
| "js_lt NaN b = False"
| "js_lt a NaN = False"
| "js_lt (Num a) PosInf = True"
| "js_lt (Num a) NegInf = False"
| "js_lt PosInf b = False"
| "js_lt NegInf (Num b) = True"
| "js_lt NegInf PosInf = True"
| "js_lt NegInf NegInf = False"

definition js_gt :: "jsnum \<Rightarrow> jsnum \<Rightarrow> bool" where
  "js_gt a b = js_lt b a"

text \<open>\<open>Math.min\<close> and \<open>Math.max\<close> of two arguments: NaN as soon as one argument is NaN.\<close>

fun js_min :: "jsnum \<Rightarrow> jsnum \<Rightarrow> jsnum" where
  "js_min NaN b = NaN"
| "js_min a NaN = NaN"
| "js_min a b = (if js_lt b a then b else a)"

fun js_max :: "jsnum \<Rightarrow> jsnum \<Rightarrow> jsnum" where
  "js_max NaN b = NaN"
| "js_max a NaN = NaN"
| "js_max a b = (if js_lt a b then b else a)"

section \<open>Coordinate records\<close>

text \<open>
  A normalized position carries the four percentages; the position stored with a field
  extends it by the page number. The rectangle \<open>{x, y, width, height}\<close> that
  \<open>normalizedToBrowser\<close> and \<open>transformToPdfCoordinates\<close> return has its fields
  prefixed with \<open>rect_\<close>, and the fitted size \<open>{width, height, offsetX, offsetY}\<close>
  of \<open>containImageInBox\<close> has \<open>fit_\<close> on its first two fields, so that \<open>x\<close>,
  \<open>y\<close>, \<open>width\<close> and \<open>height\<close> stay free as variable names.
\<close>

record normalized =
  xPercent :: jsnum
  yPercent :: jsnum
  widthPercent :: jsnum
  heightPercent :: jsnum

record position = normalized +
  pageNumber :: int

record rect =
  rect_x :: jsnum
  rect_y :: jsnum
  rect_width :: jsnum
  rect_height :: jsnum

record fitted =
  fit_width :: jsnum
  fit_height :: jsnum
  offsetX :: jsnum
  offsetY :: jsnum

section \<open>frontend/src/utils/CoordinateTransformer.js\<close>

definition browserToNormalized ::
  "jsnum \<Rightarrow> jsnum \<Rightarrow> jsnum \<Rightarrow> jsnum \<Rightarrow> jsnum \<Rightarrow> jsnum \<Rightarrow> normalized" where
  "browserToNormalized browserX browserY browserWidth browserHeight
       containerWidth containerHeight =
     \<lparr> xPercent = js_div browserX containerWidth,
       yPercent = js_div browserY containerHeight,
       widthPercent = js_div browserWidth containerWidth,
       heightPercent = js_div browserHeight containerHeight \<rparr>"

definition normalizedToBrowser ::
  "'a normalized_scheme \<Rightarrow> jsnum \<Rightarrow> jsnum \<Rightarrow> rect" where
  "normalizedToBrowser n containerWidth containerHeight =
     \<lparr> rect_x = js_mul (xPercent n) containerWidth,
       rect_y = js_mul (yPercent n) containerHeight,
       rect_width = js_mul (widthPercent n) containerWidth,
       rect_height = js_mul (heightPercent n) containerHeight \<rparr>"

definition clampPosition :: "'a normalized_scheme \<Rightarrow> normalized" where
  "clampPosition p =
     \<lparr> xPercent = js_max (Num 0) (js_min (xPercent p) (js_sub (Num 1) (widthPercent p))),
       yPercent = js_max (Num 0) (js_min (yPercent p) (js_sub (Num 1) (heightPercent p))),
       widthPercent = js_min (widthPercent p) (js_sub (Num 1) (xPercent p)),
       heightPercent = js_min (heightPercent p) (js_sub (Num 1) (yPercent p)) \<rparr>"

section \<open>backend/utils/pdfUtils.js\<close>

definition transformToPdfCoordinates ::
  "'a normalized_scheme \<Rightarrow> jsnum \<Rightarrow> jsnum \<Rightarrow> rect" where
  "transformToPdfCoordinates p pdfWidth pdfHeight =
     (let pdfX = js_mul (xPercent p) pdfWidth;
          pdfBoxWidth = js_mul (widthPercent p) pdfWidth;
          pdfBoxHeight = js_mul (heightPercent p) pdfHeight;
          pdfY = js_sub (js_sub pdfHeight (js_mul (yPercent p) pdfHeight)) pdfBoxHeight
      in \<lparr> rect_x = pdfX, rect_y = pdfY,
           rect_width = pdfBoxWidth, rect_height = pdfBoxHeight \<rparr>)"

definition containImageInBox :: "jsnum \<Rightarrow> jsnum \<Rightarrow> jsnum \<Rightarrow> jsnum \<Rightarrow> fitted" where
  "containImageInBox imgWidth imgHeight boxWidth boxHeight =
     (let imgRatio = js_div imgWidth imgHeight;
          boxRatio = js_div boxWidth boxHeight;
          (fitWidth, fitHeight) =
            (if js_gt imgRatio boxRatio
             then (boxWidth, js_div boxWidth imgRatio)
             else (js_mul boxHeight imgRatio, boxHeight));
          offX = js_div (js_sub boxWidth fitWidth) (Num 2);
          offY = js_div (js_sub boxHeight fitHeight) (Num 2)
      in \<lparr> fit_width = fitWidth, fit_height = fitHeight,
           offsetX = offX, offsetY = offY \<rparr>)"

section \<open>Double precision\<close>

text \<open>
  The engine computes in IEEE 754 binary64: the result of an operator is the exact result
  rounded to the nearest double, ties to the even significand. \<open>to_double\<close> is that
  rounding. The exponent of \<open>x\<close> is the floor of its binary logarithm, and at least
  -1022 (below that the doubles are subnormal, all with the last exponent); a double is
  a multiple of 2 to the exponent minus 52; a result that reaches \<open>2 ^ 1024\<close> is
  infinite. \<open>to_double\<close> also gives the number a decimal literal denotes. The operators
  named \<open>d_\<close> round the result of the exact operators above. The sign of a zero is
  not represented.
\<close>

definition round_even :: "real \<Rightarrow> int" where
  "round_even y =
     (let f = \<lfloor>y\<rfloor>; d = y - of_int f
      in if d < 1 / 2 then f else if 1 / 2 < d then f + 1
         else if even f then f else f + 1)"

definition to_double :: "real \<Rightarrow> jsnum" where
  "to_double x =
     (if x = 0 then Num 0
      else
        (let e = max \<lfloor>log 2 \<bar>x\<bar>\<rfloor> (- 1022);
             ulp = 2 powr of_int (e - 52);
             r = of_int (round_even (x / ulp)) * ulp
         in if 2 ^ 1024 \<le> \<bar>r\<bar> then (if 0 < x then PosInf else NegInf) else Num r))"

fun rounded :: "jsnum \<Rightarrow> jsnum" where
  "rounded (Num r) = to_double r"
| "rounded v = v"

definition d_mul :: "jsnum \<Rightarrow> jsnum \<Rightarrow> jsnum" where
  "d_mul a b = rounded (js_mul a b)"

definition d_div :: "jsnum \<Rightarrow> jsnum \<Rightarrow> jsnum" where
  "d_div a b = rounded (js_div a b)"

definition d_sub :: "jsnum \<Rightarrow> jsnum \<Rightarrow> jsnum" where
  "d_sub a b = rounded (js_sub a b)"

text \<open>
  The two functions of \<open>pdfUtils.js\<close> as the engine computes them, every operator
  rounding (the suffix \<open>_d\<close> tells them from the exact ones above).
\<close>

definition transformToPdfCoordinates_d ::
  "'a normalized_scheme \<Rightarrow> jsnum \<Rightarrow> jsnum \<Rightarrow> rect" where
  "transformToPdfCoordinates_d p pdfWidth pdfHeight =
     (let pdfX = d_mul (xPercent p) pdfWidth;
          pdfBoxWidth = d_mul (widthPercent p) pdfWidth;
          pdfBoxHeight = d_mul (heightPercent p) pdfHeight;
          pdfY = d_sub (d_sub pdfHeight (d_mul (yPercent p) pdfHeight)) pdfBoxHeight
      in \<lparr> rect_x = pdfX, rect_y = pdfY,
           rect_width = pdfBoxWidth, rect_height = pdfBoxHeight \<rparr>)"

definition containImageInBox_d :: "jsnum \<Rightarrow> jsnum \<Rightarrow> jsnum \<Rightarrow> jsnum \<Rightarrow> fitted" where
  "containImageInBox_d imgWidth imgHeight boxWidth boxHeight =
     (let imgRatio = d_div imgWidth imgHeight;
          boxRatio = d_div boxWidth boxHeight;
          (fitWidth, fitHeight) =
            (if js_gt imgRatio boxRatio
             then (boxWidth, d_div boxWidth imgRatio)
             else (d_mul boxHeight imgRatio, boxHeight));
          offX = d_div (d_sub boxWidth fitWidth) (Num 2);
          offY = d_div (d_sub boxHeight fitHeight) (Num 2)
      in \<lparr> fit_width = fitWidth, fit_height = fitHeight,
           offsetX = offX, offsetY = offY \<rparr>)"

section \<open>Backend: stored data\<close>

text \<open>
  Buffers and hex digests are strings. Identifiers (MongoDB's \<open>_id\<close>) are natural
  numbers drawn from a counter in the state. The enumerations of the schemas (field type,
  document status, audit action) are the strings the source writes. A field's
  \<open>value\<close> (schema type \<open>Mixed\<close>) is a string or a boolean, the two kinds of value the
  front end sends; \<open>None\<close> stands for \<open>null\<close> and for an absent value. Timestamps
  other than the audit record's, \<open>signedByIP\<close> and the free-form \<open>details\<close> of an audit record are
  left out: no operation reads them.
\<close>

type_synonym bytes = string
type_synonym digest = string

datatype jsvalue = VString string | VBool bool

record fieldRec =
  fieldId :: nat
  documentId :: nat
  fieldType :: string
  label :: string
  position :: position
  fieldValue :: "jsvalue option"
  required :: bool

record pageInfo =
  pageNo :: nat
  widthPoints :: jsnum
  heightPoints :: jsnum

record documentRec =
  docId :: nat
  originalFileName :: string
  originalFileUrl :: string
  originalHash :: digest
  pageCount :: nat
  pages :: "pageInfo list"
  signedFileUrl :: "string option"
  signedHash :: "digest option"
  status :: string

record actor =
  ip :: string
  userAgent :: string
  timestamp :: nat

record auditRec =
  logDocumentId :: nat
  action :: string
  documentHashBefore :: "digest option"
  documentHashAfter :: "digest option"
  performedBy :: actor

text \<open>
  The state the routes work on: the files below the backend directory (keyed by their
  path from there, \<open>/uploads/...\<close> or \<open>/signed/...\<close>), the three collections in
  insertion order, and the identifier counter.
\<close>

record state =
  disk :: "string \<Rightarrow> bytes option"
  db_documents :: "documentRec list"
  db_fields :: "fieldRec list"
  db_auditLogs :: "auditRec list"
  nextId :: nat

definition init :: state where
  "init = \<lparr> disk = (\<lambda>p. None), db_documents = [], db_fields = [], db_auditLogs = [],
            nextId = 0 \<rparr>"

datatype response =
    ErrorResponse nat string
  | UploadOk documentRec
  | FieldOk nat fieldRec
  | DeleteOk
  | SignOk string digest digest nat

section \<open>Backend: libraries\<close>

text \<open>
  The libraries the routes call are not part of the repository; they are parameters.
  \<open>sha256_hex\<close> is Node's SHA-256 with hex output. A PDF document (pdf-lib) is the list
  of its pages, each with its size and the drawing operations added to it. Every call
  into pdf-lib can throw: \<open>pdf_load\<close>, \<open>pdf_save\<close>, \<open>embedPng\<close>, \<open>embedJpg\<close>
  and the three drawing methods of a page, \<open>drawImage\<close>, \<open>drawText\<close> and
  \<open>drawCircle\<close>, return \<open>None\<close> where the library throws (a text the font cannot
  encode, a colour that is not one of the library's own colour objects, ...). The route
  passes \<open>drawCircle\<close> the plain object \<open>{red, green, blue}\<close>.
  \<open>base64_decode\<close> is \<open>Buffer.from(s, 'base64')\<close> and \<open>toLocaleDateString\<close> is
  \<open>new Date(v).toLocaleDateString()\<close>.
\<close>

record image =
  imgData :: bytes
  imgWidth :: jsnum
  imgHeight :: jsnum

record plainColor =
  red :: jsnum
  green :: jsnum
  blue :: jsnum

datatype drawOp =
    DrawImage image jsnum jsnum jsnum jsnum
  | DrawText string jsnum jsnum jsnum
  | DrawCircle jsnum jsnum jsnum plainColor

record pdfPage =
  pageWidth :: jsnum
  pageHeight :: jsnum
  drawn :: "drawOp list"

type_synonym pdfDoc = "pdfPage list"

record env =
  sha256_hex :: "bytes \<Rightarrow> digest"
  pdf_load :: "bytes \<Rightarrow> pdfDoc option"
  pdf_save :: "pdfDoc \<Rightarrow> bytes option"
  embedPng :: "bytes \<Rightarrow> image option"
  embedJpg :: "bytes \<Rightarrow> image option"
  base64_decode :: "string \<Rightarrow> bytes"
  toLocaleDateString :: "jsvalue option \<Rightarrow> string"
  drawImage :: "pdfPage \<Rightarrow> image \<Rightarrow> jsnum \<Rightarrow> jsnum \<Rightarrow> jsnum \<Rightarrow> jsnum \<Rightarrow> pdfPage option"
  drawText :: "pdfPage \<Rightarrow> string \<Rightarrow> jsnum \<Rightarrow> jsnum \<Rightarrow> jsnum \<Rightarrow> pdfPage option"
  drawCircle :: "pdfPage \<Rightarrow> jsnum \<Rightarrow> jsnum \<Rightarrow> jsnum \<Rightarrow> plainColor \<Rightarrow> pdfPage option"

datatype exn = TypeError | PageIndexError | AssetError | DrawError

section \<open>backend/utils/hashUtils.js\<close>

definition calculateHash :: "env \<Rightarrow> bytes \<Rightarrow> digest" where
  "calculateHash e buffer = sha256_hex e buffer"

section \<open>backend/models\<close>

text \<open>
  The validators of \<open>FieldSchema\<close>: the type is one of the enumeration, and each
  percentage passes \<open>min: 0\<close> and \<open>max: 1\<close> (\<open>v >= 0\<close> and \<open>v <= 1\<close>, both false
  for NaN).
\<close>

fun js_le :: "jsnum \<Rightarrow> jsnum \<Rightarrow> bool" where
  "js_le (Num a) (Num b) = (a \<le> b)"
| "js_le NaN b = False"
| "js_le a NaN = False"
| "js_le (Num a) PosInf = True"
| "js_le (Num a) NegInf = False"
| "js_le PosInf (Num b) = False"
| "js_le PosInf PosInf = True"
| "js_le PosInf NegInf = False"
| "js_le NegInf b = True"

definition js_ge :: "jsnum \<Rightarrow> jsnum \<Rightarrow> bool" where
  "js_ge a b = js_le b a"

definition fieldTypes :: "string list" where
  "fieldTypes = [''signature'', ''text'', ''date'', ''checkbox'', ''radio'', ''image'']"

definition percent_valid :: "jsnum \<Rightarrow> bool" where
  "percent_valid v = (js_ge v (Num 0) \<and> js_le v (Num 1))"

definition position_validate :: "'a normalized_scheme \<Rightarrow> bool" where
  "position_validate p =
     (percent_valid (xPercent p) \<and> percent_valid (yPercent p)
      \<and> percent_valid (widthPercent p) \<and> percent_valid (heightPercent p))"

definition Field_validate :: "fieldRec \<Rightarrow> bool" where
  "Field_validate f = (fieldType f \<in> set fieldTypes \<and> position_validate (position f))"

text \<open>
  The validators of \<open>DocumentSchema\<close> that a value can fail: the three required
  strings must not be empty.
\<close>

definition Document_validate :: "documentRec \<Rightarrow> bool" where
  "Document_validate d =
     (originalFileName d \<noteq> [] \<and> originalFileUrl d \<noteq> [] \<and> originalHash d \<noteq> [])"

text \<open>Appending an audit record (\<open>AuditLog.create\<close>).\<close>

definition AuditLog_create ::
  "nat \<Rightarrow> string \<Rightarrow> digest option \<Rightarrow> digest option \<Rightarrow> actor \<Rightarrow> state \<Rightarrow> state" where
  "AuditLog_create d a hashBefore hashAfter who s =
     s\<lparr> db_auditLogs := db_auditLogs s @
          [\<lparr> logDocumentId = d, action = a, documentHashBefore = hashBefore,
             documentHashAfter = hashAfter, performedBy = who \<rparr>] \<rparr>"

text \<open>
  \<open>findByIdAndUpdate\<close>, \<open>save\<close> and \<open>findByIdAndDelete\<close> act on the first record
  with the identifier.
\<close>

fun update_first :: "('a \<Rightarrow> bool) \<Rightarrow> ('a \<Rightarrow> 'a) \<Rightarrow> 'a list \<Rightarrow> 'a list" where
  "update_first P f [] = []"
| "update_first P f (x # xs) = (if P x then f x # xs else x # update_first P f xs)"

fun delete_first :: "('a \<Rightarrow> bool) \<Rightarrow> 'a list \<Rightarrow> 'a list" where
  "delete_first P [] = []"
| "delete_first P (x # xs) = (if P x then xs else x # delete_first P xs)"

section \<open>backend/routes/documents.js\<close>

text \<open>
  The multer middleware in front of the upload route: a file that is not a PDF or is
  larger than 10 MB is refused (the error handler of the application answers 500 with
  the message); otherwise the file is written to \<open>uploads/\<close> under the name
  \<open>uuid-originalname\<close>, and the route finds the file and that name in \<open>req.file\<close>.
  The UUID is an input.
\<close>

record uploadedFile =
  originalname :: string
  mimetype :: string
  content :: bytes

definition multer_single ::
  "(uploadedFile \<times> string) option \<Rightarrow> state
   \<Rightarrow> (string + (uploadedFile \<times> string) option) \<times> state" where
  "multer_single upl s =
     (case upl of
        None \<Rightarrow> (Inr None, s)
      | Some (file, uuid) \<Rightarrow>
          if mimetype file \<noteq> ''application/pdf'' then (Inl ''Only PDF files are allowed'', s)
          else if 10 * 1024 * 1024 < length (content file) then (Inl ''File too large'', s)
          else
            (let uniqueName = uuid @ ''-'' @ originalname file
             in (Inr (Some (file, uniqueName)),
                 s\<lparr> disk := (disk s)(''/uploads/'' @ uniqueName \<mapsto> content file) \<rparr>)))"

definition upload ::
  "env \<Rightarrow> actor \<Rightarrow> (uploadedFile \<times> string) option \<Rightarrow> state \<Rightarrow> response \<times> state" where
  "upload e who upl s =
     (case multer_single upl s of
        (Inl msg, s1) \<Rightarrow> (ErrorResponse 500 msg, s1)
      | (Inr None, s1) \<Rightarrow> (ErrorResponse 400 ''No PDF file provided'', s1)
      | (Inr (Some (file, filename)), s1) \<Rightarrow>
          (case disk s1 (''/uploads/'' @ filename) of
             None \<Rightarrow> (ErrorResponse 500 ''Failed to upload document'', s1)
           | Some pdfBuffer \<Rightarrow>
               (let hash = calculateHash e pdfBuffer in
                case pdf_load e pdfBuffer of
                  None \<Rightarrow> (ErrorResponse 500 ''Failed to upload document'', s1)
                | Some pdfDoc \<Rightarrow>
                    (let count = length pdfDoc;
                         pgs = map (\<lambda>i. \<lparr> pageNo = i + 1,
                                           widthPoints = pageWidth (pdfDoc ! i),
                                           heightPoints = pageHeight (pdfDoc ! i) \<rparr>)
                                   [0..<count];
                         document =
                           \<lparr> docId = nextId s1,
                             originalFileName = originalname file,
                             originalFileUrl = ''/uploads/'' @ filename,
                             originalHash = hash,
                             pageCount = count, pages = pgs,
                             signedFileUrl = None, signedHash = None,
                             status = ''draft'' \<rparr>
                     in if \<not> Document_validate document
                        then (ErrorResponse 500 ''Failed to upload document'', s1)
                        else
                          (let s2 = s1\<lparr> db_documents := db_documents s1 @ [document],
                                        nextId := Suc (nextId s1) \<rparr>;
                               s3 = AuditLog_create (docId document) ''uploaded'' None
                                      (Some hash) who s2
                           in (UploadOk document, s3))))))"

section \<open>backend/routes/fields.js\<close>

definition out_of_range :: "'a normalized_scheme \<Rightarrow> bool" where
  "out_of_range p =
     list_ex (\<lambda>v. js_lt v (Num 0) \<or> js_gt v (Num 1))
       [xPercent p, yPercent p, widthPercent p, heightPercent p]"

definition createField ::
  "actor \<Rightarrow> nat \<Rightarrow> string \<Rightarrow> string option \<Rightarrow> position \<Rightarrow> bool option \<Rightarrow> state
   \<Rightarrow> response \<times> state" where
  "createField who did ftype lbl pos req s =
     (case find (\<lambda>d. docId d = did) (db_documents s) of
        None \<Rightarrow> (ErrorResponse 404 ''Document not found'', s)
      | Some document \<Rightarrow>
          if out_of_range pos
          then (ErrorResponse 400 ''Position percentages must be between 0 and 1'', s)
          else
            (let field =
                   \<lparr> fieldId = nextId s, documentId = did, fieldType = ftype,
                     label = (case lbl of None \<Rightarrow> ftype
                              | Some l \<Rightarrow> if l = [] then ftype else l),
                     position = pos, fieldValue = None,
                     required = (req \<noteq> Some False) \<rparr>
             in if \<not> Field_validate field
                then (ErrorResponse 500 ''Failed to create field'', s)
                else
                  (let s1 = s\<lparr> db_fields := db_fields s @ [field],
                                nextId := Suc (nextId s) \<rparr>;
                       s2 = s1\<lparr> db_documents :=
                                  update_first (\<lambda>d. docId d = did)
                                    (\<lambda>d. d\<lparr> status := ''pending_signature'' \<rparr>)
                                    (db_documents s1) \<rparr>;
                       s3 = AuditLog_create did ''field_added'' None None who s2
                   in (FieldOk 201 field, s3))))"

text \<open>
  \<open>field.save()\<close> validates the paths that were modified: of the validated paths the
  route can only modify the position.
\<close>

definition updateField ::
  "actor \<Rightarrow> nat \<Rightarrow> position option \<Rightarrow> string option \<Rightarrow> bool option \<Rightarrow> state
   \<Rightarrow> response \<times> state" where
  "updateField who fid pos lbl req s =
     (case find (\<lambda>f. fieldId f = fid) (db_fields s) of
        None \<Rightarrow> (ErrorResponse 404 ''Field not found'', s)
      | Some field \<Rightarrow>
          if (case pos of None \<Rightarrow> False | Some p \<Rightarrow> out_of_range p)
          then (ErrorResponse 400 ''Position percentages must be between 0 and 1'', s)
          else
            (let field1 = (case pos of None \<Rightarrow> field | Some p \<Rightarrow> field\<lparr> position := p \<rparr>);
                 field2 = (case lbl of None \<Rightarrow> field1 | Some l \<Rightarrow> field1\<lparr> label := l \<rparr>);
                 field3 = (case req of None \<Rightarrow> field2 | Some r \<Rightarrow> field2\<lparr> required := r \<rparr>)
             in if (case pos of None \<Rightarrow> False | Some p \<Rightarrow> \<not> position_validate p)
                then (ErrorResponse 500 ''Failed to update field'', s)
                else
                  (let s1 = s\<lparr> db_fields :=
                                 update_first (\<lambda>f. fieldId f = fid) (\<lambda>f. field3)
                                   (db_fields s) \<rparr>;
                       s2 = AuditLog_create (documentId field3) ''field_modified'' None None
                              who s1
                   in (FieldOk 200 field3, s2))))"

definition deleteField :: "actor \<Rightarrow> nat \<Rightarrow> state \<Rightarrow> response \<times> state" where
  "deleteField who fid s =
     (case find (\<lambda>f. fieldId f = fid) (db_fields s) of
        None \<Rightarrow> (ErrorResponse 404 ''Field not found'', s)
      | Some field \<Rightarrow>
          (let s1 = s\<lparr> db_fields := delete_first (\<lambda>f. fieldId f = fid) (db_fields s) \<rparr>;
               s2 = AuditLog_create (documentId field) ''field_deleted'' None None who s1
           in (DeleteOk, s2)))"

definition setFieldValue :: "nat \<Rightarrow> jsvalue option \<Rightarrow> state \<Rightarrow> response \<times> state" where
  "setFieldValue fid v s =
     (case find (\<lambda>f. fieldId f = fid) (db_fields s) of
        None \<Rightarrow> (ErrorResponse 404 ''Field not found'', s)
      | Some field \<Rightarrow>
          (let field1 = field\<lparr> fieldValue := v \<rparr>;
               s1 = s\<lparr> db_fields :=
                         update_first (\<lambda>f. fieldId f = fid) (\<lambda>f. field1) (db_fields s) \<rparr>
           in (FieldOk 200 field1, s1)))"

section \<open>backend/routes/signPdf.js\<close>

text \<open>JavaScript's truthiness, and \<open>text || ''\<close> for the argument of \<open>drawText\<close>,
  which throws on a value that is not a string (on a string it may throw too: that is
  the library's \<open>drawText\<close>).\<close>

fun truthy :: "jsvalue option \<Rightarrow> bool" where
  "truthy None = False"
| "truthy (Some (VString str)) = (str \<noteq> [])"
| "truthy (Some (VBool b)) = b"

fun text_or_empty :: "jsvalue option \<Rightarrow> exn + string" where
  "text_or_empty None = Inr []"
| "text_or_empty (Some (VString str)) = Inr str"
| "text_or_empty (Some (VBool b)) = (if b then Inl TypeError else Inr [])"

text \<open>\<open>s.includes(pat)\<close> (named \<open>str_includes\<close>: \<open>includes\<close> is a keyword), and \<open>s.replace(/^data:image\/\w+;base64,/, '')\<close>.\<close>

fun str_includes :: "string \<Rightarrow> string \<Rightarrow> bool" where
  "str_includes [] pat = (pat = [])"
| "str_includes (c # cs) pat = (take (length pat) (c # cs) = pat \<or> str_includes cs pat)"

definition isWordChar :: "char \<Rightarrow> bool" where
  "isWordChar c =
     (c \<in> set ''abcdefghijklmnopqrstuvwxyzABCDEFGHIJKLMNOPQRSTUVWXYZ0123456789_'')"

definition stripDataUrlPrefix :: "string \<Rightarrow> string" where
  "stripDataUrlPrefix str =
     (if take 11 str = ''data:image/''
      then (let rest = drop 11 str;
                word = takeWhile isWordChar rest;
                after = dropWhile isWordChar rest
            in if word \<noteq> [] \<and> take 8 after = '';base64,'' then drop 8 after else str)
      else str)"

definition embedImage :: "env \<Rightarrow> pdfPage \<Rightarrow> jsvalue option \<Rightarrow> rect \<Rightarrow> exn + pdfPage" where
  "embedImage e page base64Data coords =
     (case base64Data of
        Some (VString str) \<Rightarrow>
          (let base64Content = stripDataUrlPrefix str;
               imageBuffer = base64_decode e base64Content
           in case (if str_includes str ''image/png'' then embedPng e imageBuffer
                    else embedJpg e imageBuffer) of
                None \<Rightarrow> Inl AssetError
              | Some img \<Rightarrow>
                  (let fit = containImageInBox (imgWidth img) (imgHeight img)
                               (rect_width coords) (rect_height coords)
                   in case drawImage e page img
                             (js_add (rect_x coords) (offsetX fit))
                             (js_add (rect_y coords) (offsetY fit))
                             (fit_width fit) (fit_height fit) of
                        None \<Rightarrow> Inl DrawError
                      | Some page1 \<Rightarrow> Inr page1))
      | _ \<Rightarrow> Inl TypeError)"

definition embedText :: "env \<Rightarrow> pdfPage \<Rightarrow> jsvalue option \<Rightarrow> rect \<Rightarrow> exn + pdfPage" where
  "embedText e page txt coords =
     (let fontSize = js_min (js_mul (rect_height coords) (Num 0.7)) (Num 12)
      in case text_or_empty txt of
           Inl err \<Rightarrow> Inl err
         | Inr str \<Rightarrow>
             (case drawText e page str
                     (js_add (rect_x coords) (Num 2))
                     (js_add (rect_y coords)
                        (js_div (js_sub (rect_height coords) fontSize) (Num 2)))
                     fontSize of
                None \<Rightarrow> Inl DrawError
              | Some page1 \<Rightarrow> Inr page1))"

definition checkmark :: string where
  "checkmark = [CHR 0xE2, CHR 0x9C, CHR 0x93]"

definition embedCheckmark :: "env \<Rightarrow> pdfPage \<Rightarrow> rect \<Rightarrow> exn + pdfPage" where
  "embedCheckmark e page coords =
     (let centerX = js_add (rect_x coords) (js_div (rect_width coords) (Num 2));
          centerY = js_add (rect_y coords) (js_div (rect_height coords) (Num 2));
          sz = js_mul (js_min (rect_width coords) (rect_height coords)) (Num 0.6)
      in case drawText e page checkmark
                (js_sub centerX (js_div sz (Num 2)))
                (js_sub centerY (js_div sz (Num 2))) sz of
           None \<Rightarrow> Inl DrawError
         | Some page1 \<Rightarrow> Inr page1)"

definition embedRadioFill :: "env \<Rightarrow> pdfPage \<Rightarrow> rect \<Rightarrow> exn + pdfPage" where
  "embedRadioFill e page coords =
     (let centerX = js_add (rect_x coords) (js_div (rect_width coords) (Num 2));
          centerY = js_add (rect_y coords) (js_div (rect_height coords) (Num 2));
          radius = js_mul (js_min (rect_width coords) (rect_height coords)) (Num 0.3)
      in case drawCircle e page centerX centerY radius
                \<lparr> red = Num 0, green = Num 0, blue = Num 0 \<rparr> of
           None \<Rightarrow> Inl DrawError
         | Some page1 \<Rightarrow> Inr page1)"

text \<open>
  The body of the loop over the fields: \<open>getPage\<close> throws on an index outside the
  document; then the switch on the field type (\<open>embedByType\<close>; it has no default case)
  draws on the page, which is part of the document.
\<close>

definition embedByType :: "env \<Rightarrow> pdfPage \<Rightarrow> fieldRec \<Rightarrow> rect \<Rightarrow> exn + pdfPage" where
  "embedByType e page field pdfCoords =
     (if fieldType field = ''signature'' \<or> fieldType field = ''image''
      then embedImage e page (fieldValue field) pdfCoords
      else if fieldType field = ''text''
      then embedText e page (fieldValue field) pdfCoords
      else if fieldType field = ''date''
      then embedText e page (Some (VString (toLocaleDateString e (fieldValue field))))
             pdfCoords
      else if fieldType field = ''checkbox''
      then (if truthy (fieldValue field) then embedCheckmark e page pdfCoords else Inr page)
      else if fieldType field = ''radio''
      then (if truthy (fieldValue field) then embedRadioFill e page pdfCoords else Inr page)
      else Inr page)"

definition processField :: "env \<Rightarrow> pdfDoc \<Rightarrow> fieldRec \<Rightarrow> exn + pdfDoc" where
  "processField e pdfDoc field =
     (let i = pageNumber (position field) - 1
      in if i < 0 \<or> int (length pdfDoc) \<le> i then Inl PageIndexError
         else
           (let page = pdfDoc ! nat i;
                pdfCoords = transformToPdfCoordinates (position field)
                              (pageWidth page) (pageHeight page)
            in case embedByType e page field pdfCoords of
                 Inl err \<Rightarrow> Inl err
               | Inr page1 \<Rightarrow> Inr (pdfDoc[nat i := page1])))"

fun processFields :: "env \<Rightarrow> pdfDoc \<Rightarrow> fieldRec list \<Rightarrow> exn + pdfDoc" where
  "processFields e pdfDoc [] = Inr pdfDoc"
| "processFields e pdfDoc (field # rest) =
     (case processField e pdfDoc field of
        Inl err \<Rightarrow> Inl err
      | Inr pdfDoc1 \<Rightarrow> processFields e pdfDoc1 rest)"

text \<open>
  The route. Every exception inside its \<open>try\<close> block is answered by 500; the UUID of
  the signed file's name is an input.
\<close>

definition valuedFields :: "nat \<Rightarrow> state \<Rightarrow> fieldRec list" where
  "valuedFields did s = filter (\<lambda>f. documentId f = did \<and> fieldValue f \<noteq> None) (db_fields s)"

definition signPdf :: "env \<Rightarrow> actor \<Rightarrow> nat \<Rightarrow> string \<Rightarrow> state \<Rightarrow> response \<times> state" where
  "signPdf e who did uuid s =
     (case find (\<lambda>d. docId d = did) (db_documents s) of
        None \<Rightarrow> (ErrorResponse 404 ''Document not found'', s)
      | Some document \<Rightarrow>
          (let fields = valuedFields did s
           in if fields = [] then (ErrorResponse 400 ''No signed fields found'', s)
              else
                (case disk s (originalFileUrl document) of
                   None \<Rightarrow> (ErrorResponse 500 ''Failed to sign PDF'', s)
                 | Some pdfBuffer \<Rightarrow>
                     (let hashBefore = calculateHash e pdfBuffer in
                      case pdf_load e pdfBuffer of
                        None \<Rightarrow> (ErrorResponse 500 ''Failed to sign PDF'', s)
                      | Some pdfDoc \<Rightarrow>
                          (case processFields e pdfDoc fields of
                             Inl err \<Rightarrow> (ErrorResponse 500 ''Failed to sign PDF'', s)
                           | Inr signedDoc \<Rightarrow>
                               (case pdf_save e signedDoc of
                                  None \<Rightarrow> (ErrorResponse 500 ''Failed to sign PDF'', s)
                                | Some signedBuffer \<Rightarrow>
                                    (let hashAfter = calculateHash e signedBuffer;
                                         signedFileName = ''signed-'' @ uuid @ ''.pdf'';
                                         s1 = s\<lparr> disk := (disk s)
                                                  (''/signed/'' @ signedFileName
                                                     \<mapsto> signedBuffer) \<rparr>;
                                         document1 = document
                                           \<lparr> signedFileUrl :=
                                               Some (''/signed/'' @ signedFileName),
                                             signedHash := Some hashAfter,
                                             status := ''signed'' \<rparr>;
                                         s2 = s1\<lparr> db_documents :=
                                                   update_first (\<lambda>d. docId d = did)
                                                     (\<lambda>d. document1) (db_documents s1) \<rparr>;
                                         s3 = AuditLog_create did ''signed''
                                                (Some hashBefore) (Some hashAfter) who s2
                                     in (SignOk (''/signed/'' @ signedFileName)
                                           hashBefore hashAfter (length fields),
                                         s3))))))))"

section \<open>Sequences of requests\<close>

datatype request =
    Upload actor "(uploadedFile \<times> string) option"
  | CreateField actor nat string "string option" position "bool option"
  | UpdateField actor nat "position option" "string option" "bool option"
  | DeleteField actor nat
  | SetFieldValue nat "jsvalue option"
  | SignPdf actor nat string

fun handle :: "env \<Rightarrow> request \<Rightarrow> state \<Rightarrow> response \<times> state" where
  "handle e (Upload who upl) s = upload e who upl s"
| "handle e (CreateField who did ftype lbl pos req) s = createField who did ftype lbl pos req s"
| "handle e (UpdateField who fid pos lbl req) s = updateField who fid pos lbl req s"
| "handle e (DeleteField who fid) s = deleteField who fid s"
| "handle e (SetFieldValue fid v) s = setFieldValue fid v s"
| "handle e (SignPdf who did uuid) s = signPdf e who did uuid s"

fun run :: "env \<Rightarrow> state \<Rightarrow> request list \<Rightarrow> state" where
  "run e s [] = s"
| "run e s (r # rs) = run e (snd (handle e r s)) rs"

text \<open>The names under which the uploads of a sequence of requests are stored.\<close>

fun uploadNames :: "request list \<Rightarrow> string list" where
  "uploadNames [] = []"
| "uploadNames (Upload who (Some (file, uuid)) # rs) =
     (uuid @ ''-'' @ originalname file) # uploadNames rs"
| "uploadNames (r # rs) = uploadNames rs"

section \<open>The hash chain, as the specification words it\<close>

text \<open>
  The audit records of one document, in the order they were appended; the chain property
  on a list of records (for every adjacent pair, where the earlier record has a
  \<open>hashAfter\<close> and the later one a \<open>hashBefore\<close>, the two are equal); and the records
  that carry a digest.
\<close>

definition recordsOf :: "nat \<Rightarrow> state \<Rightarrow> auditRec list" where
  "recordsOf did s = filter (\<lambda>r. logDocumentId r = did) (db_auditLogs s)"

fun chain_ok :: "auditRec list \<Rightarrow> bool" where
  "chain_ok (r1 # r2 # rs) =
     ((case (documentHashAfter r1, documentHashBefore r2) of
         (Some a, Some b) \<Rightarrow> a = b
       | _ \<Rightarrow> True)
      \<and> chain_ok (r2 # rs))"
| "chain_ok rs = True"

definition digestRecords :: "auditRec list \<Rightarrow> auditRec list" where
  "digestRecords rs =
     filter (\<lambda>r. documentHashBefore r \<noteq> None \<or> documentHashAfter r \<noteq> None) rs"

section \<open>The range of a stored percentage\<close>

text \<open>
  A percentage inside the range \<open>[0, 1]\<close> of the data model, and a percentage (finite
  or infinite) outside of it. NaN is neither.
\<close>

fun in_unit :: "jsnum \<Rightarrow> bool" where
  "in_unit (Num r) = (0 \<le> r \<and> r \<le> 1)"
| "in_unit v = False"

fun outside_unit :: "jsnum \<Rightarrow> bool" where
  "outside_unit (Num r) = (r < 0 \<or> 1 < r)"
| "outside_unit PosInf = True"
| "outside_unit NegInf = True"
| "outside_unit NaN = False"

section \<open>A small instance\<close>

text \<open>
  An instance of the libraries and a short session, for the examples below. The digest
  is the buffer behind a prefix, so that, like SHA-256 for all practical purposes, it
  tells any two buffers apart. Every buffer that starts with \<open>%PDF\<close> loads as one A4
  page; saving writes a header and one star for each drawing operation; every nonempty
  buffer decodes as a 300 x 100 PNG and no buffer decodes as a JPEG. Drawing adds the
  operation to the page (\<open>draw\<close>), but \<open>drawText\<close> throws on a text with a tab, which
  the standard font cannot encode, and \<open>drawCircle\<close> throws on the plain colour object,
  as pdf-lib does.
\<close>

definition draw :: "drawOp \<Rightarrow> pdfPage \<Rightarrow> pdfPage" where
  "draw d page = page\<lparr> drawn := drawn page @ [d] \<rparr>"

definition testEnv :: env where
  "testEnv =
     \<lparr> sha256_hex = (\<lambda>b. ''sha256:'' @ b),
       pdf_load = (\<lambda>b. if take 4 b = ''%PDF''
                        then Some [\<lparr> pageWidth = Num 595, pageHeight = Num 842,
                                     drawn = [] \<rparr>]
                        else None),
       pdf_save = (\<lambda>d. Some (''%PDF signed ''
                                @ replicate (length (concat (map drawn d))) CHR ''*'')),
       embedPng = (\<lambda>b. if b = [] then None
                        else Some \<lparr> imgData = b, imgWidth = Num 300,
                                    imgHeight = Num 100 \<rparr>),
       embedJpg = (\<lambda>b. None),
       base64_decode = (\<lambda>str. str),
       toLocaleDateString = (\<lambda>v. ''1/1/2026''),
       drawImage = (\<lambda>page img x y w h. Some (draw (DrawImage img x y w h) page)),
       drawText = (\<lambda>page str x y sz.
                     if CHR 0x09 \<in> set str then None
                     else Some (draw (DrawText str x y sz) page)),
       drawCircle = (\<lambda>page x y sz colour. None) \<rparr>"

definition alice :: actor where
  "alice = \<lparr> ip = ''10.0.0.1'', userAgent = ''browser'', timestamp = 0 \<rparr>"

definition contract :: uploadedFile where
  "contract = \<lparr> originalname = ''contract.pdf'', mimetype = ''application/pdf'',
                content = ''%PDF-1.7 contract'' \<rparr>"

definition sigPosition :: position where
  "sigPosition = \<lparr> xPercent = Num 0.1, yPercent = Num 0.8, widthPercent = Num 0.3,
                   heightPercent = Num 0.1, pageNumber = 1 \<rparr>"

definition stampPosition :: position where
  "stampPosition = \<lparr> xPercent = Num 0.8, yPercent = Num 0.2, widthPercent = Num 0.5,
                     heightPercent = Num 0.2, pageNumber = 1 \<rparr>"

definition optionPosition :: position where
  "optionPosition = \<lparr> xPercent = Num 0.1, yPercent = Num 0.1, widthPercent = Num 0.03,
                      heightPercent = Num 0.03, pageNumber = 1 \<rparr>"

definition farPosition :: position where
  "farPosition = \<lparr> xPercent = Num 1.5, yPercent = Num 0.2, widthPercent = Num 0.5,
                   heightPercent = Num 0.2, pageNumber = 1 \<rparr>"

text \<open>Upload a contract, place a signature field on it and draw the signature.\<close>

definition prepared :: "request list" where
  "prepared =
     [Upload alice (Some (contract, ''u1'')),
      CreateField alice 0 ''signature'' None sigPosition None,
      SetFieldValue 1 (Some (VString ''data:image/png;base64,iVBOR''))]"

text \<open>Then place an image field too and give it a JPEG.\<close>

definition stamped :: "request list" where
  "stamped =
     prepared @
     [CreateField alice 0 ''image'' None stampPosition None,
      SetFieldValue 2 (Some (VString ''data:image/jpeg;base64,/9j/4''))]"

text \<open>Or place a radio field and tick it.\<close>

definition ticked :: "request list" where
  "ticked =
     prepared @
     [CreateField alice 0 ''radio'' None optionPosition None,
      SetFieldValue 2 (Some (VBool True))]"

definition contractDoc :: documentRec where
  "contractDoc =
     \<lparr> docId = 0, originalFileName = ''contract.pdf'',
       originalFileUrl = ''/uploads/u1-contract.pdf'',
       originalHash = ''sha256:%PDF-1.7 contract'', pageCount = 1,
       pages = [\<lparr> pageNo = 1, widthPoints = Num 595, heightPoints = Num 842 \<rparr>],
       signedFileUrl = None, signedHash = None, status = ''pending_signature'' \<rparr>"

definition sigField :: fieldRec where
  "sigField =
     \<lparr> fieldId = 1, documentId = 0, fieldType = ''signature'', label = ''signature'',
       position = sigPosition,
       fieldValue = Some (VString ''data:image/png;base64,iVBOR''), required = True \<rparr>"

definition stampField :: fieldRec where
  "stampField =
     \<lparr> fieldId = 2, documentId = 0, fieldType = ''image'', label = ''image'',
       position = stampPosition,
       fieldValue = Some (VString ''data:image/jpeg;base64,/9j/4''), required = True \<rparr>"

definition optionField :: fieldRec where
  "optionField =
     \<lparr> fieldId = 2, documentId = 0, fieldType = ''radio'', label = ''radio'',
       position = optionPosition, fieldValue = Some (VBool True), required = True \<rparr>"

definition auditEntry :: "string \<Rightarrow> digest option \<Rightarrow> digest option \<Rightarrow> auditRec" where
  "auditEntry a hashBefore hashAfter =
     \<lparr> logDocumentId = 0, action = a, documentHashBefore = hashBefore,
       documentHashAfter = hashAfter, performedBy = alice \<rparr>"

definition preparedState :: state where
  "preparedState =
     \<lparr> disk = (\<lambda>p. None)(''/uploads/u1-contract.pdf'' \<mapsto> ''%PDF-1.7 contract''),
       db_documents = [contractDoc],
       db_fields = [sigField],
       db_auditLogs = [auditEntry ''uploaded'' None (Some ''sha256:%PDF-1.7 contract''),
                       auditEntry ''field_added'' None None],
       nextId = 2 \<rparr>"

definition stampedState :: state where
  "stampedState =
     \<lparr> disk = (\<lambda>p. None)(''/uploads/u1-contract.pdf'' \<mapsto> ''%PDF-1.7 contract''),
       db_documents = [contractDoc],
       db_fields = [sigField, stampField],
       db_auditLogs = [auditEntry ''uploaded'' None (Some ''sha256:%PDF-1.7 contract''),
                       auditEntry ''field_added'' None None,
                       auditEntry ''field_added'' None None],
       nextId = 3 \<rparr>"

definition tickedState :: state where
  "tickedState = stampedState\<lparr> db_fields := [sigField, optionField] \<rparr>"

text \<open>The page of the contract, and the page with the signature drawn on it.\<close>

definition blankPage :: pdfPage where
  "blankPage = \<lparr> pageWidth = Num 595, pageHeight = Num 842, drawn = [] \<rparr>"

definition signedPage :: pdfPage where
  "signedPage =
     \<lparr> pageWidth = Num 595, pageHeight = Num 842,
       drawn = [DrawImage \<lparr> imgData = ''iVBOR'', imgWidth = Num 300, imgHeight = Num 100 \<rparr>
                  (Num 59.5) (Num 96.55) (Num 178.5) (Num 59.5)] \<rparr>"

section \<open>The audit trail of a document: its shape\<close>

text \<open>
  What the routes keep true of the audit trail. Of a document only the identifier, the
  digest of the upload and the path of the uploaded file matter here (\<open>docKey\<close>); the
  routes never change them. A record after the first one is in order for the digest
  \<open>h\<close> when a \<open>signed\<close> record has \<open>h\<close> as its \<open>hashBefore\<close> and has a
  \<open>hashAfter\<close>, and any other record has no digest. The trail of a document with
  upload digest \<open>h\<close> starts with the \<open>uploaded\<close> record, whose \<open>hashAfter\<close> is
  \<open>h\<close>, and goes on with records in order for \<open>h\<close>. \<open>trailOn\<close> is the invariant, on
  the components of the state: identifiers are fresh, every document's file is on disk
  under one of the names \<open>N\<close> with the digest the document records, and every
  document's trail has that shape.
\<close>

definition docKey :: "documentRec \<Rightarrow> nat \<times> digest \<times> string" where
  "docKey d = (docId d, originalHash d, originalFileUrl d)"

definition laterOk :: "digest \<Rightarrow> auditRec \<Rightarrow> bool" where
  "laterOk h r =
     (if action r = ''signed''
      then documentHashBefore r = Some h \<and> documentHashAfter r \<noteq> None
      else documentHashBefore r = None \<and> documentHashAfter r = None)"

fun uploadedFirst :: "digest \<Rightarrow> auditRec list \<Rightarrow> bool" where
  "uploadedFirst h [] = False"
| "uploadedFirst h (r # rest) =
     (action r = ''uploaded'' \<and> documentHashBefore r = None
      \<and> documentHashAfter r = Some h \<and> list_all (laterOk h) rest)"

definition trailOn ::
  "env \<Rightarrow> string set \<Rightarrow> (string \<Rightarrow> bytes option) \<Rightarrow> (nat \<times> digest \<times> string) list
   \<Rightarrow> nat list \<Rightarrow> auditRec list \<Rightarrow> nat \<Rightarrow> bool" where
  "trailOn e N dsk keys fdocs logs n =
     (distinct (map fst keys)
      \<and> (\<forall>k \<in> set keys. fst k < n)
      \<and> (\<forall>i \<in> set fdocs. i < n)
      \<and> (\<forall>r \<in> set logs. logDocumentId r < n)
      \<and> (\<forall>(i, h, u) \<in> set keys.
            \<exists>nm b. u = ''/uploads/'' @ nm \<and> nm \<in> N \<and> dsk u = Some b
                   \<and> h = calculateHash e b)
      \<and> (\<forall>(i, h, u) \<in> set keys.
            uploadedFirst h (filter (\<lambda>r. logDocumentId r = i) logs)))"

definition trailInv :: "env \<Rightarrow> string set \<Rightarrow> state \<Rightarrow> bool" where
  "trailInv e N s =
     trailOn e N (disk s) (map docKey (db_documents s)) (map documentId (db_fields s))
       (db_auditLogs s) (nextId s)"

text \<open>The session \<open>prepared\<close>, then the signing request, once and twice.\<close>

definition signedOnce :: "request list" where
  "signedOnce = prepared @ [SignPdf alice 0 ''u2'']"

definition signedTwice :: "request list" where
  "signedTwice = prepared @ [SignPdf alice 0 ''u2'', SignPdf alice 0 ''u3'']"

definition signedContract :: "string \<Rightarrow> documentRec" where
  "signedContract uuid =
     contractDoc\<lparr> signedFileUrl := Some (''/signed/signed-'' @ uuid @ ''.pdf''),
                  signedHash := Some ''sha256:%PDF signed *'', status := ''signed'' \<rparr>"

section \<open>Coordinate transformation: properties\<close>

text \<open>
  On finite numbers the JavaScript operators are the real ones, so the functions above
  compute the closed forms below. \<open>clampPosition\<close> on finite components:
\<close>

lemma clampPosition_Num:
  "clampPosition \<lparr> xPercent = Num x, yPercent = Num y, widthPercent = Num w,
                    heightPercent = Num h, \<dots> = ext \<rparr>
   = \<lparr> xPercent = Num (max 0 (min x (1 - w))), yPercent = Num (max 0 (min y (1 - h))),
       widthPercent = Num (min w (1 - x)), heightPercent = Num (min h (1 - y)) \<rparr>"
  by (simp add: clampPosition_def min_def max_def)

text \<open>
  C1. For finite percentages and a finite page size, \<open>transformToPdfCoordinates\<close> returns
  \<open>x = xPercent * pageWidth\<close>, \<open>width = widthPercent * pageWidth\<close>,
  \<open>height = heightPercent * pageHeight\<close> and, with the vertical axis inverted,
  \<open>y = pageHeight - yPercent * pageHeight - heightPercent * pageHeight\<close>. With a page
  height of 800, \<open>yPercent = 0\<close>, \<open>heightPercent = 0.1\<close> gives \<open>y = 720\<close> and
  \<open>yPercent = 0.9\<close>, \<open>heightPercent = 0.1\<close> gives \<open>y = 0\<close>.
\<close>

theorem transformToPdfCoordinates_flips_y:
  "transformToPdfCoordinates
     \<lparr> xPercent = Num xp, yPercent = Num yp, widthPercent = Num wp,
       heightPercent = Num hp, \<dots> = ext \<rparr> (Num pageW) (Num pageH)
   = \<lparr> rect_x = Num (xp * pageW), rect_y = Num (pageH - yp * pageH - hp * pageH),
       rect_width = Num (wp * pageW), rect_height = Num (hp * pageH) \<rparr>
   \<and> rect_y (transformToPdfCoordinates
        \<lparr> xPercent = Num xp, yPercent = Num 0, widthPercent = Num wp,
          heightPercent = Num 0.1 \<rparr> (Num pageW) (Num 800)) = Num 720
   \<and> rect_y (transformToPdfCoordinates
        \<lparr> xPercent = Num xp, yPercent = Num 0.9, widthPercent = Num wp,
          heightPercent = Num 0.1 \<rparr> (Num pageW) (Num 800)) = Num 0"
  by (simp add: transformToPdfCoordinates_def Let_def)

text \<open>
  C3, at the input \<open>{xPercent: -0.5, yPercent: 0, widthPercent: 1.2, heightPercent: 0.5}\<close>:
  \<open>clampPosition\<close> moves the field to \<open>xPercent = 0\<close> but measures the width against
  the original \<open>xPercent\<close>, so the width stays 1.2 and the field overflows the page;
  a second \<open>clampPosition\<close> then cuts the width to 1, so the first result was no fixed
  point.
\<close>

theorem clampPosition_overflows_at_negative_x:
  "clampPosition \<lparr> xPercent = Num (- 0.5), yPercent = Num 0, widthPercent = Num 1.2,
                    heightPercent = Num 0.5 \<rparr>
   = \<lparr> xPercent = Num 0, yPercent = Num 0, widthPercent = Num 1.2,
       heightPercent = Num 0.5 \<rparr>
   \<and> clampPosition (clampPosition
        \<lparr> xPercent = Num (- 0.5), yPercent = Num 0, widthPercent = Num 1.2,
          heightPercent = Num 0.5 \<rparr>)
   = \<lparr> xPercent = Num 0, yPercent = Num 0, widthPercent = Num 1,
       heightPercent = Num 0.5 \<rparr>"
  by (simp add: clampPosition_def)

text \<open>
  Where \<open>xPercent\<close> and \<open>yPercent\<close> are not negative, \<open>clampPosition\<close> is idempotent,
  increases neither width nor height and returns a rectangle inside the page (any width
  and height, also beyond 1).
\<close>

lemma clampPosition_idempotent_nonneg:
  assumes "0 \<le> x" and "0 \<le> y"
  shows "clampPosition (clampPosition
           \<lparr> xPercent = Num x, yPercent = Num y, widthPercent = Num w,
             heightPercent = Num h \<rparr>)
         = clampPosition \<lparr> xPercent = Num x, yPercent = Num y, widthPercent = Num w,
                            heightPercent = Num h \<rparr>"
  using assms by (auto simp: clampPosition_Num min_def max_def)

lemma clampPosition_inside_nonneg:
  assumes "0 \<le> x" and "0 \<le> y"
  shows "\<exists>x' y' w' h'.
           clampPosition \<lparr> xPercent = Num x, yPercent = Num y, widthPercent = Num w,
                            heightPercent = Num h \<rparr>
           = \<lparr> xPercent = Num x', yPercent = Num y', widthPercent = Num w',
               heightPercent = Num h' \<rparr>
           \<and> w' \<le> w \<and> h' \<le> h \<and> x' + w' \<le> 1 \<and> y' + h' \<le> 1"
  using assms by (auto simp: clampPosition_Num min_def max_def)

section \<open>Double precision: properties\<close>

text \<open>
  Rounding to the nearest integer is off by a half at most, and \<open>to_double\<close> of a
  number whose exponent is known is that rounding at the scale of the exponent: the rule
  by which the doubles below are computed.
\<close>

lemma round_even_close: "\<bar>of_int (round_even y) - y\<bar> \<le> 1 / 2"
proof -
  have "of_int \<lfloor>y\<rfloor> \<le> y" and "y < of_int \<lfloor>y\<rfloor> + 1" by linarith+
  then show ?thesis
    by (auto simp: round_even_def Let_def abs_le_iff)
qed

lemma round_even_nonneg: "0 \<le> y \<Longrightarrow> 0 \<le> round_even y"
  by (auto simp: round_even_def Let_def)

lemma to_double_eval:
  assumes "x \<noteq> 0" and "2 ^ 52 \<le> \<bar>x\<bar> * 2 ^ k" and "\<bar>x\<bar> * 2 ^ k < 2 ^ 53" and "k \<le> 1074"
  shows "to_double x = Num (of_int (round_even (x * 2 ^ k)) / 2 ^ k)"
proof -
  define e :: int where "e = 52 - int k"
  have pk: "(2::real) powr of_int (- int k) = 1 / 2 ^ k"
    by (simp add: powr_minus powr_realpow field_simps)
  have lo: "2 powr of_int e \<le> \<bar>x\<bar>"
  proof -
    have "(2::real) powr of_int e = 2 ^ 52 / 2 ^ k"
      unfolding e_def by (simp add: powr_diff powr_realpow)
    with assms(2) show ?thesis by (simp add: pos_divide_le_eq)
  qed
  have hi: "\<bar>x\<bar> < 2 powr of_int (e + 1)"
  proof -
    have "(2::real) powr of_int (e + 1) = 2 ^ 53 / 2 ^ k"
      unfolding e_def by (simp add: powr_diff powr_realpow)
    with assms(3) show ?thesis by (simp add: pos_less_divide_eq)
  qed
  from assms(1) lo hi have fl: "\<lfloor>log 2 \<bar>x\<bar>\<rfloor> = e"
    by (subst floor_log_eq_powr_iff) simp_all
  from assms(4) have mx: "max e (- 1022) = e" by (simp add: e_def)
  have ulp: "(2::real) powr of_int (e - 52) = 1 / 2 ^ k"
    using pk by (simp add: e_def)
  define m where "m = round_even (x * 2 ^ k)"
  have "\<bar>of_int m - x * 2 ^ k\<bar> \<le> 1 / 2" unfolding m_def by (rule round_even_close)
  then have "\<bar>of_int m\<bar> \<le> \<bar>x * 2 ^ k\<bar> + 1 / 2" by linarith
  also have "\<dots> < 2 ^ 53 + 1 / 2" using assms(3) by (simp add: abs_mult)
  finally have "\<bar>real_of_int m\<bar> < 2 ^ 54" by simp
  moreover have "(1::real) \<le> 2 ^ k" by simp
  then have "\<bar>real_of_int m\<bar> / 2 ^ k \<le> \<bar>real_of_int m\<bar> / 1"
    by (intro divide_left_mono) simp_all
  ultimately have "\<bar>real_of_int m\<bar> / 2 ^ k < 2 ^ 54" by simp
  also have "(2::real) ^ 54 < 2 ^ 1024" by (simp add: power_strict_increasing)
  finally have small: "\<not> 2 ^ 1024 \<le> \<bar>real_of_int m / 2 ^ k\<bar>"
    by (simp add: abs_divide)
  from assms(1) fl mx ulp small show ?thesis
    by (simp add: to_double_def Let_def m_def)
qed

text \<open>
  The relative error of rounding a normal number is at most \<open>1 / 2 ^ 53\<close>; the absolute
  error of rounding any finite number is that, plus half the least subnormal.
\<close>

lemma to_double_rel:
  assumes "1 / 2 ^ 1022 \<le> x" and "x \<le> 2 ^ 1023"
  obtains r where "to_double x = Num r"
    and "(1 - 1 / 2 ^ 53) * x \<le> r" and "r \<le> (1 + 1 / 2 ^ 53) * x"
proof -
  have "(0::real) < 1 / 2 ^ 1022" by simp
  with assms(1) have pos: "0 < x" by linarith
  define e where "e = \<lfloor>log 2 x\<rfloor>"
  have "\<lfloor>log 2 x\<rfloor> = e" by (simp add: e_def)
  with pos have lo: "2 powr of_int e \<le> x" and hi: "x < 2 powr of_int (e + 1)"
    by (simp_all add: floor_log_eq_powr_iff)
  have "(2::real) powr of_int (- 1022) = 1 / 2 ^ 1022"
    by (simp add: powr_minus powr_realpow field_simps)
  with assms(1) have "2 powr of_int (- 1022) \<le> x" by simp
  with pos have "of_int (- 1022) \<le> log 2 x"
    by (subst le_log_iff) simp_all
  then have emin: "- 1022 \<le> e" unfolding e_def by (simp add: le_floor_iff)
  then have mx: "max e (- 1022) = e" by simp
  define ulp :: real where "ulp = 2 powr of_int (e - 52)"
  have ulp_pos: "0 < ulp" by (simp add: ulp_def)
  have ulp_half: "ulp / 2 = 2 powr of_int e / 2 ^ 53"
    by (simp add: ulp_def powr_diff powr_realpow)
  define m where "m = round_even (x / ulp)"
  define r where "r = of_int m * ulp"
  have "\<bar>of_int m - x / ulp\<bar> \<le> 1 / 2" unfolding m_def by (rule round_even_close)
  then have "\<bar>of_int m - x / ulp\<bar> * ulp \<le> 1 / 2 * ulp"
    using ulp_pos by (intro mult_right_mono) simp_all
  moreover have "\<bar>of_int m - x / ulp\<bar> * ulp = \<bar>r - x\<bar>"
  proof -
    have "\<bar>of_int m - x / ulp\<bar> * ulp = \<bar>(of_int m - x / ulp) * ulp\<bar>"
      using ulp_pos by (simp add: abs_mult)
    also have "(of_int m - x / ulp) * ulp = r - x"
      using ulp_pos by (simp add: r_def left_diff_distrib)
    finally show ?thesis .
  qed
  ultimately have "\<bar>r - x\<bar> \<le> ulp / 2" by simp
  also have "\<dots> \<le> x / 2 ^ 53"
    unfolding ulp_half using lo by (intro divide_right_mono) simp_all
  finally have close: "\<bar>r - x\<bar> \<le> x / 2 ^ 53" .
  have lo_eq: "(1 - 1 / 2 ^ 53) * x = x - x / 2 ^ 53"
    and hi_eq: "(1 + 1 / 2 ^ 53) * x = x + x / 2 ^ 53"
    by (simp_all add: algebra_simps)
  from close have lower: "(1 - 1 / 2 ^ 53) * x \<le> r" and upper: "r \<le> (1 + 1 / 2 ^ 53) * x"
    unfolding lo_eq hi_eq by linarith+
  have "x / 2 ^ 53 < x" using pos by simp
  with lower have rpos: "0 < r" unfolding lo_eq by linarith
  have "(1 + 1 / 2 ^ 53) * x \<le> (1 + 1 / 2 ^ 53) * (2::real) ^ 1023"
    using assms(2) by (intro mult_left_mono) simp_all
  also have "\<dots> < 2 ^ 1024" by simp
  finally have "r < 2 ^ 1024" using upper by linarith
  with rpos have fin: "\<not> 2 ^ 1024 \<le> \<bar>r\<bar>" by simp
  have fl: "\<lfloor>log 2 \<bar>x\<bar>\<rfloor> = e" using pos by (simp add: e_def)
  have ulp_eq: "2 powr (real_of_int e - 52) = ulp" by (simp add: ulp_def)
  have r_eq: "real_of_int (round_even (x / ulp)) * ulp = r" by (simp add: r_def m_def)
  from pos fl mx ulp_eq r_eq fin have "to_double x = Num r"
    by (simp add: to_double_def Let_def)
  then show ?thesis using lower upper by (rule that)
qed

lemma to_double_div_pos:
  assumes "1 / 2 ^ 1022 \<le> a / b" and "a / b \<le> 2 ^ 1023" and "b \<noteq> 0"
  obtains r where "d_div (Num a) (Num b) = Num r"
    and "(1 - 1 / 2 ^ 53) * (a / b) \<le> r" and "r \<le> (1 + 1 / 2 ^ 53) * (a / b)"
proof -
  from assms(1,2) obtain r where "to_double (a / b) = Num r"
    and "(1 - 1 / 2 ^ 53) * (a / b) \<le> r" and "r \<le> (1 + 1 / 2 ^ 53) * (a / b)"
    by (rule to_double_rel)
  with assms(3) show ?thesis by (intro that [of r]) (simp_all add: d_div_def)
qed

lemma to_double_mul_pos:
  assumes "1 / 2 ^ 1022 \<le> a * b" and "a * b \<le> 2 ^ 1023"
  obtains r where "d_mul (Num a) (Num b) = Num r"
    and "(1 - 1 / 2 ^ 53) * (a * b) \<le> r" and "r \<le> (1 + 1 / 2 ^ 53) * (a * b)"
proof -
  from assms obtain r where "to_double (a * b) = Num r"
    and "(1 - 1 / 2 ^ 53) * (a * b) \<le> r" and "r \<le> (1 + 1 / 2 ^ 53) * (a * b)"
    by (rule to_double_rel)
  then show ?thesis by (intro that [of r]) (simp_all add: d_mul_def)
qed

text \<open>Bounds on a quotient and a product of bounded positive numbers.\<close>

lemma quotient_bounds:
  fixes a b :: real
  assumes "1 / 2 ^ m \<le> a" and "a \<le> 2 ^ m" and "1 / 2 ^ n \<le> b" and "b \<le> 2 ^ n"
  shows "1 / 2 ^ (m + n) \<le> a / b" and "a / b \<le> 2 ^ (m + n)"
proof -
  have bpos: "0 < b" using assms(3) by (smt (verit) zero_less_divide_1_iff zero_less_power)
  have apos: "0 < a" using assms(1) by (smt (verit) zero_less_divide_1_iff zero_less_power)
  have "(1 / 2 ^ m) / 2 ^ n \<le> a / b"
    using assms(1,4) bpos less_imp_le [OF apos] by (intro frac_le) simp_all
  then show "1 / 2 ^ (m + n) \<le> a / b" by (simp add: power_add)
  have "a / b \<le> 2 ^ m / (1 / 2 ^ n)"
    using assms(2,3) less_imp_le [OF apos] by (intro frac_le) simp_all
  then show "a / b \<le> 2 ^ (m + n)" by (simp add: power_add)
qed

lemma product_bounds:
  fixes a b :: real
  assumes "1 / 2 ^ m \<le> a" and "a \<le> 2 ^ m" and "1 / 2 ^ n \<le> b" and "b \<le> 2 ^ n"
  shows "1 / 2 ^ (m + n) \<le> a * b" and "a * b \<le> 2 ^ (m + n)"
proof -
  have apos: "0 < a" using assms(1) by (smt (verit) zero_less_divide_1_iff zero_less_power)
  have "(1 / 2 ^ m) * (1 / 2 ^ n) \<le> a * b"
    using assms(1,3) less_imp_le [OF apos] by (intro mult_mono) simp_all
  then show "1 / 2 ^ (m + n) \<le> a * b" by (simp add: power_add)
  have bpos: "0 < b" using assms(3) by (smt (verit) zero_less_divide_1_iff zero_less_power)
  have "a * b \<le> 2 ^ m * 2 ^ n"
    using assms(2,4) bpos by (intro mult_mono) simp_all
  then show "a * b \<le> 2 ^ (m + n)" by (simp add: power_add)
qed

lemma rounded_bounds:
  fixes x r :: real
  assumes "1 / 2 ^ m \<le> x" and "x \<le> 2 ^ m"
    and "(1 - 1 / 2 ^ 53) * x \<le> r" and "r \<le> (1 + 1 / 2 ^ 53) * x"
  shows "1 / 2 ^ (m + 1) \<le> r" and "r \<le> 2 ^ (m + 1)"
proof -
  have xpos: "0 < x" using assms(1) by (smt (verit) zero_less_divide_1_iff zero_less_power)
  have "(1 / 2) * (1 / 2 ^ m) \<le> (1 - 1 / 2 ^ 53) * x"
    using assms(1) by (intro mult_mono) simp_all
  with assms(3) show "1 / 2 ^ (m + 1) \<le> r" by simp
  have "(1 + 1 / 2 ^ 53) * x \<le> 2 * 2 ^ m"
    using assms(2) xpos by (intro mult_mono) simp_all
  with assms(4) show "r \<le> 2 ^ (m + 1)" by simp
qed

lemma fits_wide:
  fixes A B E :: real
  assumes AB: "0 < B" "0 < A" "A / B \<le> 1 + E" "1 - E \<le> B / A"
    and pos: "0 < bw" "0 < bh" "0 < rho" "0 < r1" "0 < r2"
    and r1: "B * rho \<le> r1" "r1 \<le> A * rho"
    and r2: "B * (bw / bh) \<le> r2"
    and wide: "r2 < r1"
    and fh: "B * (bw / r1) \<le> fh" "fh \<le> A * (bw / r1)"
  shows "0 < fh" and "fh \<le> (1 + E) * bh"
    and "(1 - E) * rho \<le> bw / fh" and "bw / fh \<le> (1 + E) * rho"
proof -
  have x: "0 < bw / r1" using pos by simp
  with AB(1) fh(1) show fhpos: "0 < fh"
    by (smt (verit) mult_pos_pos)
  have "bw / r1 \<le> bw / r2"
    using wide pos by (intro divide_left_mono) simp_all
  also have "\<dots> \<le> bw / (B * (bw / bh))"
    using r2 pos AB(1) by (intro divide_left_mono) simp_all
  also have "\<dots> = bh / B" using pos AB(1) by (simp add: field_simps)
  finally have "A * (bw / r1) \<le> A * (bh / B)"
    using AB(2) by (intro mult_left_mono) simp_all
  with fh(2) have "fh \<le> (A / B) * bh" by simp
  also have "\<dots> \<le> (1 + E) * bh"
    using AB(3) pos by (intro mult_right_mono) simp_all
  finally show "fh \<le> (1 + E) * bh" .
  have "bw / fh \<le> bw / (B * (bw / r1))"
    using fh(1) pos AB(1) x fhpos by (intro divide_left_mono) simp_all
  also have "\<dots> = r1 / B" using pos AB(1) by (simp add: field_simps)
  also have "\<dots> \<le> (A * rho) / B"
    using r1(2) AB(1) by (intro divide_right_mono) simp_all
  also have "\<dots> = (A / B) * rho" by simp
  also have "\<dots> \<le> (1 + E) * rho"
    using AB(3) pos by (intro mult_right_mono) simp_all
  finally show "bw / fh \<le> (1 + E) * rho" .
  have "(1 - E) * rho \<le> (B / A) * rho"
    using AB(4) pos by (intro mult_right_mono) simp_all
  also have "\<dots> = (B * rho) / A" by simp
  also have "\<dots> \<le> r1 / A"
    using r1(1) AB(2) by (intro divide_right_mono) simp_all
  also have "\<dots> = bw / (A * (bw / r1))" using pos AB(2) by (simp add: field_simps)
  also have "\<dots> \<le> bw / fh"
    using fh(2) fhpos pos AB(2) by (intro divide_left_mono) simp_all
  finally show "(1 - E) * rho \<le> bw / fh" .
qed

lemma fits_tall:
  fixes A B E :: real
  assumes AB: "0 < B" "0 < A" "A * A \<le> 1 + E" "1 - E \<le> B * B"
    and pos: "0 < bw" "0 < bh" "0 < rho" "0 < r1" "0 < r2"
    and r1: "B * rho \<le> r1" "r1 \<le> A * rho"
    and r2: "r2 \<le> A * (bw / bh)"
    and tall: "r1 \<le> r2"
    and fw: "B * (bh * r1) \<le> fw" "fw \<le> A * (bh * r1)"
  shows "0 < fw" and "fw \<le> (1 + E) * bw"
    and "(1 - E) * rho \<le> fw / bh" and "fw / bh \<le> (1 + E) * rho"
proof -
  have x: "0 < bh * r1" using pos by simp
  with AB(1) fw(1) show "0 < fw"
    by (smt (verit) mult_pos_pos)
  have "bh * r1 \<le> bh * (A * (bw / bh))"
    using tall r2 pos by (intro mult_left_mono) simp_all
  also have "\<dots> = A * bw" using pos by simp
  finally have "A * (bh * r1) \<le> A * (A * bw)"
    using AB(2) by (intro mult_left_mono) simp_all
  with fw(2) have "fw \<le> (A * A) * bw" by (simp add: mult.assoc)
  also have "\<dots> \<le> (1 + E) * bw"
    using AB(3) pos by (intro mult_right_mono) simp_all
  finally show "fw \<le> (1 + E) * bw" .
  have "fw / bh \<le> A * (bh * r1) / bh"
    using fw(2) pos by (intro divide_right_mono) simp_all
  also have "\<dots> = A * r1" using pos by simp
  also have "\<dots> \<le> A * (A * rho)"
    using r1(2) AB(2) by (intro mult_left_mono) simp_all
  also have "\<dots> = (A * A) * rho" by simp
  also have "\<dots> \<le> (1 + E) * rho"
    using AB(3) pos by (intro mult_right_mono) simp_all
  finally show "fw / bh \<le> (1 + E) * rho" .
  have "(1 - E) * rho \<le> (B * B) * rho"
    using AB(4) pos by (intro mult_right_mono) simp_all
  also have "\<dots> = B * (B * rho)" by simp
  also have "\<dots> \<le> B * r1"
    using r1(1) AB(1) by (intro mult_left_mono) simp_all
  also have "\<dots> = B * (bh * r1) / bh" using pos by simp
  also have "\<dots> \<le> fw / bh"
    using fw(1) pos by (intro divide_right_mono) simp_all
  finally show "(1 - E) * rho \<le> fw / bh" .
qed

lemma to_double_abs:
  assumes "\<bar>x\<bar> \<le> 2 ^ 1023"
  obtains r where "to_double x = Num r" and "\<bar>r - x\<bar> \<le> \<bar>x\<bar> / 2 ^ 53 + 1 / 2 ^ 1075"
proof (cases "x = 0")
  case True
  then have "to_double x = Num 0" and "\<bar>0 - x\<bar> \<le> \<bar>x\<bar> / 2 ^ 53 + 1 / 2 ^ 1075"
    by (simp_all add: to_double_def)
  then show ?thesis by (rule that)
next
  case False
  then have pos: "0 < \<bar>x\<bar>" by simp
  define e where "e = max \<lfloor>log 2 \<bar>x\<bar>\<rfloor> (- 1022)"
  define ulp :: real where "ulp = 2 powr of_int (e - 52)"
  have ulp_pos: "0 < ulp" by (simp add: ulp_def)
  have half: "ulp / 2 \<le> \<bar>x\<bar> / 2 ^ 53 + 1 / 2 ^ 1075"
  proof (cases "- 1022 \<le> \<lfloor>log 2 \<bar>x\<bar>\<rfloor>")
    case True
    then have e: "\<lfloor>log 2 \<bar>x\<bar>\<rfloor> = e" by (simp add: e_def)
    with pos have lo: "2 powr of_int e \<le> \<bar>x\<bar>"
      by (simp add: floor_log_eq_powr_iff)
    have "ulp / 2 = 2 powr of_int e / 2 ^ 53"
      by (simp add: ulp_def powr_diff powr_realpow)
    also have "\<dots> \<le> \<bar>x\<bar> / 2 ^ 53"
      using lo by (intro divide_right_mono) simp_all
    finally show ?thesis by simp
  next
    case False
    then have "e = - 1022" by (simp add: e_def)
    then have "ulp / 2 = 2 powr of_int (- 1075)" 
      by (simp add: ulp_def powr_diff powr_realpow powr_minus field_simps)
    also have "\<dots> = 1 / 2 ^ 1075"
      by (simp add: powr_minus powr_realpow field_simps)
    finally show ?thesis using pos by simp
  qed
  define m where "m = round_even (x / ulp)"
  define r where "r = of_int m * ulp"
  have "\<bar>of_int m - x / ulp\<bar> \<le> 1 / 2" unfolding m_def by (rule round_even_close)
  then have "\<bar>of_int m - x / ulp\<bar> * ulp \<le> 1 / 2 * ulp"
    using ulp_pos by (intro mult_right_mono) simp_all
  moreover have "\<bar>of_int m - x / ulp\<bar> * ulp = \<bar>r - x\<bar>"
  proof -
    have "\<bar>of_int m - x / ulp\<bar> * ulp = \<bar>(of_int m - x / ulp) * ulp\<bar>"
      using ulp_pos by (simp add: abs_mult)
    also have "(of_int m - x / ulp) * ulp = r - x"
      using ulp_pos by (simp add: r_def left_diff_distrib)
    finally show ?thesis .
  qed
  ultimately have "\<bar>r - x\<bar> \<le> ulp / 2" by simp
  with half have close: "\<bar>r - x\<bar> \<le> \<bar>x\<bar> / 2 ^ 53 + 1 / 2 ^ 1075" by linarith
  have "\<bar>x\<bar> / 2 ^ 53 \<le> 2 ^ 1023 / (2::real) ^ 53"
    using assms by (intro divide_right_mono) simp_all
  with close assms have "\<bar>r\<bar> \<le> 2 ^ 1023 + 2 ^ 1023 / (2::real) ^ 53 + 1 / 2 ^ 1075"
    by linarith
  also have "\<dots> < 2 ^ 1024" by simp
  finally have fin: "\<not> 2 ^ 1024 \<le> \<bar>r\<bar>" by simp
  have e_eq: "max \<lfloor>log 2 \<bar>x\<bar>\<rfloor> (- 1022) = e" by (simp add: e_def)
  have ulp_eq: "2 powr (real_of_int e - 52) = ulp" by (simp add: ulp_def)
  have r_eq: "real_of_int (round_even (x / ulp)) * ulp = r" by (simp add: r_def m_def)
  from \<open>x \<noteq> 0\<close> e_eq ulp_eq r_eq fin have "to_double x = Num r"
    by (simp add: to_double_def Let_def)
  then show ?thesis using close by (rule that)
qed

lemma centred_offset:
  assumes "1 / 2 ^ 100 \<le> b" and "b \<le> 2 ^ 100" and "0 < f" and "f \<le> 2 * b"
  obtains off where "d_div (d_sub (Num b) (Num f)) (Num 2) = Num off"
    and "\<bar>off - (b - f) / 2\<bar> \<le> b / 2 ^ 50"
proof -
  define c where "c = b / 2 ^ 53"
  define t :: real where "t = 1 / 2 ^ 1075"
  have b: "b = 2 ^ 53 * c" by (simp add: c_def)
  have "(1::real) / 2 ^ 1075 \<le> (1 / 2 ^ 100) / 2 ^ 53" by simp
  also have "\<dots> \<le> b / 2 ^ 53" using assms(1) by (intro divide_right_mono) simp_all
  finally have t: "0 \<le> t" "t \<le> c" by (simp_all add: t_def c_def)
  have cpos: "0 \<le> c" using t by linarith
  have gap: "\<bar>b - f\<bar> \<le> 2 * b" using assms(3,4) cpos b by (simp add: abs_le_iff)
  also have "\<dots> \<le> 2 * 2 ^ 100" using assms(2) by simp
  also have "\<dots> \<le> (2::real) ^ 1023" by simp
  finally obtain g where g: "to_double (b - f) = Num g"
    and gerr: "\<bar>g - (b - f)\<bar> \<le> \<bar>b - f\<bar> / 2 ^ 53 + t"
    unfolding t_def by (rule to_double_abs)
  have "\<bar>b - f\<bar> / 2 ^ 53 \<le> 2 * b / 2 ^ 53"
    using gap by (intro divide_right_mono) simp_all
  then have gap53: "\<bar>b - f\<bar> / 2 ^ 53 \<le> 2 * c" by (simp add: c_def)
  from gerr gap53 t have gclose: "\<bar>g - (b - f)\<bar> \<le> 3 * c" by linarith
  from gclose gap b cpos have gabs: "\<bar>g\<bar> \<le> 3 * b" by (simp add: abs_le_iff)
  have "\<bar>g / 2\<bar> \<le> 3 * b" using gabs by simp
  also have "\<dots> \<le> 3 * 2 ^ 100" using assms(2) by simp
  also have "\<dots> \<le> (2::real) ^ 1023" by simp
  finally obtain off where off: "to_double (g / 2) = Num off"
    and oerr: "\<bar>off - g / 2\<bar> \<le> \<bar>g / 2\<bar> / 2 ^ 53 + t"
    unfolding t_def by (rule to_double_abs)
  have "\<bar>g / 2\<bar> / 2 ^ 53 \<le> 3 * b / 2 ^ 53"
    using gabs by (intro divide_right_mono) simp_all
  then have "\<bar>g / 2\<bar> / 2 ^ 53 \<le> 3 * c" by (simp add: c_def)
  with oerr t have oclose: "\<bar>off - g / 2\<bar> \<le> 4 * c" by linarith
  from oclose have o1: "off - g / 2 \<le> 4 * c" and o2: "g / 2 - off \<le> 4 * c"
    by linarith+
  from gclose have g1: "g - (b - f) \<le> 3 * c" and g2: "(b - f) - g \<le> 3 * c"
    by linarith+
  have split: "off - (b - f) / 2 = (off - g / 2) + (g - (b - f)) / 2"
    by (simp add: field_simps)
  from o1 g1 cpos have up: "off - (b - f) / 2 \<le> 8 * c"
    unfolding split by argo
  have split': "(b - f) / 2 - off = (g / 2 - off) + ((b - f) - g) / 2"
    by (simp add: field_simps)
  from o2 g2 cpos have down: "(b - f) / 2 - off \<le> 8 * c"
    unfolding split' by argo
  note up down
  then have "\<bar>off - (b - f) / 2\<bar> \<le> 8 * c" by (simp add: abs_le_iff)
  also have "8 * c = b / 2 ^ 50" by (simp add: c_def)
  finally have bound: "\<bar>off - (b - f) / 2\<bar> \<le> b / 2 ^ 50" .
  from g off have "d_div (d_sub (Num b) (Num f)) (Num 2) = Num off"
    by (simp add: d_div_def d_sub_def)
  then show ?thesis using bound by (rule that)
qed

text \<open>
  The doubles of the scenario on the 595 x 842 page, one operator at a time.
\<close>

lemma to_double_zero: "to_double 0 = Num 0"
  by (simp add: to_double_def)

lemma double_0_1: "to_double (1 / 10) = Num (3602879701896397 / 36028797018963968)"
  by (subst to_double_eval [where k = 56]) (simp_all add: round_even_def Let_def)

lemma double_0_8: "to_double (4 / 5) = Num (3602879701896397 / 4503599627370496)"
  by (subst to_double_eval [where k = 53]) (simp_all add: round_even_def Let_def)

lemma double_0_3: "to_double (3 / 10) = Num (5404319552844595 / 18014398509481984)"
  by (subst to_double_eval [where k = 54]) (simp_all add: round_even_def Let_def)

lemma scn_x: "d_mul (Num (3602879701896397 / 36028797018963968)) (Num 595) = Num (119 / 2)"
  by (simp add: d_mul_def) (subst to_double_eval [where k = 47], simp_all add: round_even_def Let_def)

lemma scn_width: "d_mul (Num (5404319552844595 / 18014398509481984)) (Num 595) = Num (357 / 2)"
  by (simp add: d_mul_def) (subst to_double_eval [where k = 45], simp_all add: round_even_def Let_def)

lemma scn_height: "d_mul (Num (3602879701896397 / 36028797018963968)) (Num 842) = Num (5925048259759309 / 70368744177664)"
  by (simp add: d_mul_def) (subst to_double_eval [where k = 46], simp_all add: round_even_def Let_def)

lemma scn_top: "d_mul (Num (3602879701896397 / 4503599627370496)) (Num 842) = Num (5925048259759309 / 8796093022208)"
  by (simp add: d_mul_def) (subst to_double_eval [where k = 43], simp_all add: round_even_def Let_def)

lemma scn_below: "d_sub (Num 842) (Num (5925048259759309 / 8796093022208)) = Num (1481262064939827 / 8796093022208)"
  by (simp add: d_sub_def) (subst to_double_eval [where k = 45], simp_all add: round_even_def Let_def)

lemma scn_y: "d_sub (Num (1481262064939827 / 8796093022208)) (Num (5925048259759309 / 70368744177664)) = Num (5925048259759307 / 70368744177664)"
  by (simp add: d_sub_def) (subst to_double_eval [where k = 46], simp_all add: round_even_def Let_def)

lemma scn_imgRatio: "d_div (Num 300) (Num 100) = Num 3"
  by (simp add: d_div_def) (subst to_double_eval [where k = 51], simp_all add: round_even_def Let_def)

lemma scn_boxRatio: "d_div (Num (357 / 2)) (Num (5925048259759309 / 70368744177664)) = Num (4773708631149843 / 2251799813685248)"
  by (simp add: d_div_def) (subst to_double_eval [where k = 51], simp_all add: round_even_def Let_def)

lemma scn_fitHeight: "d_div (Num (357 / 2)) (Num 3) = Num (119 / 2)"
  by (simp add: d_div_def) (subst to_double_eval [where k = 47], simp_all add: round_even_def Let_def)

lemma scn_gapX: "d_sub (Num (357 / 2)) (Num (357 / 2)) = Num 0"
  by (simp add: d_sub_def to_double_zero)

lemma scn_offsetX: "d_div (Num 0) (Num 2) = Num 0"
  by (simp add: d_div_def to_double_zero)

lemma scn_gapY: "d_sub (Num (5925048259759309 / 70368744177664)) (Num (119 / 2)) = Num (1738107981188301 / 70368744177664)"
  by (simp add: d_sub_def) (subst to_double_eval [where k = 48], simp_all add: round_even_def Let_def)

lemma scn_offsetY: "d_div (Num (1738107981188301 / 70368744177664)) (Num 2) = Num (1738107981188301 / 140737488355328)"
  by (simp add: d_div_def) (subst to_double_eval [where k = 49], simp_all add: round_even_def Let_def)

text \<open>
  C4, as the spec states it, fails: the field at
  \<open>{xPercent: 0.1, yPercent: 0.8, widthPercent: 0.3, heightPercent: 0.1}\<close> on a 595 x 842
  page does not get \<open>y = 0\<close>, and the 300 x 100 asset does not get a vertical offset of 0.
\<close>

theorem scenario_595_842_counterexample:
  "rect_y (transformToPdfCoordinates
      \<lparr> xPercent = Num 0.1, yPercent = Num 0.8, widthPercent = Num 0.3,
        heightPercent = Num 0.1 \<rparr> (Num 595) (Num 842)) \<noteq> Num 0
   \<and> offsetY (containImageInBox (Num 300) (Num 100) (Num 178.5) (Num 84.2)) \<noteq> Num 0"
  by (simp add: transformToPdfCoordinates_def containImageInBox_def js_gt_def Let_def)

text \<open>
  In exact arithmetic the field gets the target rectangle
  \<open>{x: 59.5, y: 84.2, width: 178.5, height: 84.2}\<close> and the 300 x 100 asset the fitted
  size 178.5 x 59.5 with the offsets 0 and 12.35.
\<close>

lemma scenario_595_842_exact:
  "transformToPdfCoordinates
      \<lparr> xPercent = Num 0.1, yPercent = Num 0.8, widthPercent = Num 0.3,
        heightPercent = Num 0.1 \<rparr> (Num 595) (Num 842)
   = \<lparr> rect_x = Num 59.5, rect_y = Num 84.2, rect_width = Num 178.5,
       rect_height = Num 84.2 \<rparr>
   \<and> containImageInBox (Num 300) (Num 100) (Num 178.5) (Num 84.2)
   = \<lparr> fit_width = Num 178.5, fit_height = Num 59.5, offsetX = Num 0,
       offsetY = Num 12.35 \<rparr>"
  by (simp add: transformToPdfCoordinates_def containImageInBox_def js_gt_def Let_def)

text \<open>
  C4, amended to what the code returns in doubles: on a 595 x 842 page the field at
  \<open>{xPercent: 0.1, yPercent: 0.8, widthPercent: 0.3, heightPercent: 0.1}\<close> (the doubles
  these literals denote) gets the target rectangle with \<open>x = 59.5\<close>, \<open>width = 178.5\<close>,
  \<open>height = 5925048259759309 / 2 ^ 46\<close> (the double nearest 84.2) and
  \<open>y = 5925048259759307 / 2 ^ 46\<close> (84.19999999999997, two units in the last place
  below); fitting a 300 x 100 asset into that box gives the fitted width 178.5, the fitted
  height 59.5, the horizontal offset 0 and the vertical offset
  \<open>1738107981188301 / 2 ^ 47\<close> (12.350000000000001). \<open>y\<close> and the height are within
  \<open>1 / 10 ^ 13\<close> of 84.2, the vertical offset within \<open>1 / 10 ^ 13\<close> of 12.35.
\<close>

theorem scenario_595_842_in_doubles:
  "transformToPdfCoordinates_d
      \<lparr> xPercent = to_double 0.1, yPercent = to_double 0.8, widthPercent = to_double 0.3,
        heightPercent = to_double 0.1 \<rparr> (Num 595) (Num 842)
   = \<lparr> rect_x = Num 59.5, rect_y = Num (5925048259759307 / 70368744177664),
       rect_width = Num 178.5, rect_height = Num (5925048259759309 / 70368744177664) \<rparr>
   \<and> containImageInBox_d (Num 300) (Num 100) (Num 178.5)
        (Num (5925048259759309 / 70368744177664))
   = \<lparr> fit_width = Num 178.5, fit_height = Num 59.5, offsetX = Num 0,
       offsetY = Num (1738107981188301 / 140737488355328) \<rparr>
   \<and> \<bar>5925048259759307 / 70368744177664 - 84.2\<bar> \<le> (1 / 10 ^ 13 :: real)
   \<and> \<bar>5925048259759309 / 70368744177664 - 84.2\<bar> \<le> (1 / 10 ^ 13 :: real)
   \<and> \<bar>1738107981188301 / 140737488355328 - 12.35\<bar> \<le> (1 / 10 ^ 13 :: real)"
  by (simp add: transformToPdfCoordinates_d_def containImageInBox_d_def Let_def js_gt_def
      double_0_1 double_0_8 double_0_3 scn_x scn_width scn_height scn_top scn_below scn_y
      scn_imgRatio scn_boxRatio scn_fitHeight scn_gapX scn_offsetX scn_gapY scn_offsetY)

text \<open>
  The doubles of fitting a 7 x 25 asset into a 7 x 25 box, one operator at a time.
\<close>

lemma sq_ratio: "d_div (Num 7) (Num 25) = Num (1261007895663739 / 4503599627370496)"
  by (simp add: d_div_def) (subst to_double_eval [where k = 54], simp_all add: round_even_def Let_def)

lemma sq_fitWidth: "d_mul (Num 25) (Num (1261007895663739 / 4503599627370496)) = Num (7881299347898369 / 1125899906842624)"
  by (simp add: d_mul_def) (subst to_double_eval [where k = 50], simp_all add: round_even_def Let_def)

lemma sq_gapX: "d_sub (Num 7) (Num (7881299347898369 / 1125899906842624)) = Num (- (1 / 1125899906842624))"
  by (simp add: d_sub_def) (subst to_double_eval [where k = 102], simp_all add: round_even_def Let_def)

lemma sq_offsetX: "d_div (Num (- (1 / 1125899906842624))) (Num 2) = Num (- (1 / 2251799813685248))"
  by (simp add: d_div_def) (subst to_double_eval [where k = 103], simp_all add: round_even_def Let_def)

lemma sq_gapY: "d_sub (Num 25) (Num 25) = Num 0"
  by (simp add: d_sub_def to_double_zero)

lemma sq_offsetY: "d_div (Num 0) (Num 2) = Num 0"
  by (simp add: d_div_def to_double_zero)

text \<open>
  C5, as the spec states it, fails in doubles: fitting a 7 x 25 asset into a 7 x 25 box,
  the code returns the fitted width \<open>7881299347898369 / 2 ^ 50\<close> (7.000000000000001),
  which exceeds the box width 7, and the horizontal offset \<open>- 1 / 2 ^ 51\<close>, which is
  negative.
\<close>

theorem containImageInBox_d_exceeds_box:
  "containImageInBox_d (Num 7) (Num 25) (Num 7) (Num 25)
   = \<lparr> fit_width = Num (7881299347898369 / 1125899906842624), fit_height = Num 25,
       offsetX = Num (- (1 / 2251799813685248)), offsetY = Num 0 \<rparr>
   \<and> js_gt (fit_width (containImageInBox_d (Num 7) (Num 25) (Num 7) (Num 25))) (Num 7)"
  by (simp add: containImageInBox_d_def Let_def js_gt_def
      sq_ratio sq_fitWidth sq_gapX sq_offsetX sq_gapY sq_offsetY)

text \<open>
  In exact arithmetic, for positive asset and box dimensions, the fitted size has the
  asset's ratio and does not exceed the box in either dimension, with the offsets
  \<open>(boxWidth - fitWidth) / 2\<close> and \<open>(boxHeight - fitHeight) / 2\<close>.
\<close>

lemma containImageInBox_exact_fits:
  assumes "0 < iw" and "0 < ih" and "0 < bw" and "0 < bh"
  shows "\<exists>fw fh.
           containImageInBox (Num iw) (Num ih) (Num bw) (Num bh)
           = \<lparr> fit_width = Num fw, fit_height = Num fh,
               offsetX = Num ((bw - fw) / 2), offsetY = Num ((bh - fh) / 2) \<rparr>
           \<and> fw / fh = iw / ih \<and> fw \<le> bw \<and> fh \<le> bh \<and> 0 < fw \<and> 0 < fh"
proof (cases "bw / bh < iw / ih")
  case True
  with assms have fit: "containImageInBox (Num iw) (Num ih) (Num bw) (Num bh)
      = \<lparr> fit_width = Num bw, fit_height = Num (bw / (iw / ih)),
          offsetX = Num ((bw - bw) / 2), offsetY = Num ((bh - bw / (iw / ih)) / 2) \<rparr>"
    by (simp add: containImageInBox_def js_gt_def Let_def)
  from True assms have "bw / (bw / (iw / ih)) = iw / ih" and "bw / (iw / ih) \<le> bh"
    and "0 < bw / (iw / ih)"
    by (simp_all add: field_simps)
  with fit assms show ?thesis
    by (intro exI [of _ bw] exI [of _ "bw / (iw / ih)"]) simp
next
  case False
  with assms have fit: "containImageInBox (Num iw) (Num ih) (Num bw) (Num bh)
      = \<lparr> fit_width = Num (bh * (iw / ih)), fit_height = Num bh,
          offsetX = Num ((bw - bh * (iw / ih)) / 2), offsetY = Num ((bh - bh) / 2) \<rparr>"
    by (simp add: containImageInBox_def js_gt_def Let_def)
  from False assms have "bh * (iw / ih) / bh = iw / ih" and "bh * (iw / ih) \<le> bw"
    and "0 < bh * (iw / ih)"
    by (simp_all add: field_simps)
  with fit assms show ?thesis
    by (intro exI [of _ "bh * (iw / ih)"] exI [of _ bh]) simp
qed

text \<open>
  C5, amended to what the code guarantees in doubles: for asset and box dimensions between
  \<open>1 / 2 ^ 100\<close> and \<open>2 ^ 100\<close>, \<open>containImageInBox\<close> returns positive finite numbers;
  one fitted dimension is the box's, exactly, and the other exceeds the box's by a factor
  of \<open>1 + 1 / 2 ^ 51\<close> at most; \<open>fitWidth / fitHeight\<close> is the asset's ratio up to a
  factor between \<open>1 - 1 / 2 ^ 51\<close> and \<open>1 + 1 / 2 ^ 51\<close>; \<open>offsetX\<close> is within
  \<open>boxWidth / 2 ^ 50\<close> of \<open>(boxWidth - fitWidth) / 2\<close> and \<open>offsetY\<close> within
  \<open>boxHeight / 2 ^ 50\<close> of \<open>(boxHeight - fitHeight) / 2\<close>.
\<close>

theorem containImageInBox_d_fits:
  assumes iw: "1 / 2 ^ 100 \<le> iw" "iw \<le> 2 ^ 100"
    and ih: "1 / 2 ^ 100 \<le> ih" "ih \<le> 2 ^ 100"
    and bw: "1 / 2 ^ 100 \<le> bw" "bw \<le> 2 ^ 100"
    and bh: "1 / 2 ^ 100 \<le> bh" "bh \<le> 2 ^ 100"
  shows "\<exists>fw fh ox oy.
           containImageInBox_d (Num iw) (Num ih) (Num bw) (Num bh)
           = \<lparr> fit_width = Num fw, fit_height = Num fh, offsetX = Num ox, offsetY = Num oy \<rparr>
           \<and> (fw = bw \<or> fh = bh) \<and> 0 < fw \<and> 0 < fh
           \<and> fw \<le> (1 + 1 / 2 ^ 51) * bw \<and> fh \<le> (1 + 1 / 2 ^ 51) * bh
           \<and> (1 - 1 / 2 ^ 51) * (iw / ih) \<le> fw / fh
           \<and> fw / fh \<le> (1 + 1 / 2 ^ 51) * (iw / ih)
           \<and> \<bar>ox - (bw - fw) / 2\<bar> \<le> bw / 2 ^ 50
           \<and> \<bar>oy - (bh - fh) / 2\<bar> \<le> bh / 2 ^ 50"
proof -
  define A :: real where "A = 1 + 1 / 2 ^ 53"
  define B :: real where "B = 1 - 1 / 2 ^ 53"
  define E :: real where "E = 1 / 2 ^ 51"
  have AB: "0 < B" "0 < A" "A / B \<le> 1 + E" "1 - E \<le> B / A"
    "A * A \<le> 1 + E" "1 - E \<le> B * B"
    by (simp_all add: A_def B_def E_def)
  have E2: "1 + E \<le> 2" by (simp add: E_def)
  have tiny: "(0::real) < 1 / 2 ^ 100" by simp
  from tiny iw ih bw bh have pos: "0 < iw" "0 < ih" "0 < bw" "0 < bh" by linarith+
  have rho: "1 / 2 ^ 200 \<le> iw / ih" "iw / ih \<le> 2 ^ 200"
    using quotient_bounds [OF iw ih] by simp_all
  have beta: "1 / 2 ^ 200 \<le> bw / bh" "bw / bh \<le> 2 ^ 200"
    using quotient_bounds [OF bw bh] by simp_all
  have range: "(1::real) / 2 ^ 1022 \<le> 1 / 2 ^ 200" "(2::real) ^ 200 \<le> 2 ^ 1023"
    "(1::real) / 2 ^ 1022 \<le> 1 / 2 ^ 301" "(2::real) ^ 301 \<le> 2 ^ 1023"
    by simp_all
  from rho range pos obtain r1 where r1: "d_div (Num iw) (Num ih) = Num r1"
    and r1b: "B * (iw / ih) \<le> r1" "r1 \<le> A * (iw / ih)"
    unfolding A_def B_def by (rule_tac a = iw and b = ih in to_double_div_pos) auto
  from beta range pos obtain r2 where r2: "d_div (Num bw) (Num bh) = Num r2"
    and r2b: "B * (bw / bh) \<le> r2" "r2 \<le> A * (bw / bh)"
    unfolding A_def B_def by (rule_tac a = bw and b = bh in to_double_div_pos) auto
  have r1r: "1 / 2 ^ 201 \<le> r1" "r1 \<le> 2 ^ 201"
    using rounded_bounds [OF rho r1b [unfolded A_def B_def]] by simp_all
  have r2r: "1 / 2 ^ 201 \<le> r2" "r2 \<le> 2 ^ 201"
    using rounded_bounds [OF beta r2b [unfolded A_def B_def]] by simp_all
  have "(0::real) < 1 / 2 ^ 201" by simp
  with r1r r2r have rpos: "0 < r1" "0 < r2" by linarith+
  from pos have rhopos: "0 < iw / ih" by simp
  show ?thesis
  proof (cases "r2 < r1")
    case True
    have x: "1 / 2 ^ 301 \<le> bw / r1" "bw / r1 \<le> 2 ^ 301"
      using quotient_bounds [OF bw r1r] by simp_all
    with range rpos obtain fh where fh: "d_div (Num bw) (Num r1) = Num fh"
      and fhb: "B * (bw / r1) \<le> fh" "fh \<le> A * (bw / r1)"
      unfolding A_def B_def by (rule_tac a = bw and b = r1 in to_double_div_pos) auto
    note fit = fits_wide [OF AB(1-4) pos(3,4) rhopos rpos r1b r2b(1) True fhb]
    have "(1 + E) * bh \<le> 2 * bh"
      using E2 pos by (intro mult_right_mono) simp_all
    with fit(2) have "fh \<le> 2 * bh" by linarith
    with bh fit(1) obtain oy where oy: "d_div (d_sub (Num bh) (Num fh)) (Num 2) = Num oy"
      and oyb: "\<bar>oy - (bh - fh) / 2\<bar> \<le> bh / 2 ^ 50"
      by (rule_tac b = bh and f = fh in centred_offset) auto
    from bw pos obtain ox where ox: "d_div (d_sub (Num bw) (Num bw)) (Num 2) = Num ox"
      and oxb: "\<bar>ox - (bw - bw) / 2\<bar> \<le> bw / 2 ^ 50"
      by (rule_tac b = bw and f = bw in centred_offset) auto
    from True r1 r2 fh ox oy
    have "containImageInBox_d (Num iw) (Num ih) (Num bw) (Num bh)
        = \<lparr> fit_width = Num bw, fit_height = Num fh, offsetX = Num ox, offsetY = Num oy \<rparr>"
      by (simp add: containImageInBox_d_def Let_def js_gt_def)
    moreover from pos E_def have "bw \<le> (1 + 1 / 2 ^ 51) * bw" by simp
    ultimately show ?thesis
      using fit oxb oyb pos unfolding E_def by blast
  next
    case False
    then have tall: "r1 \<le> r2" by simp
    have x: "1 / 2 ^ 301 \<le> bh * r1" "bh * r1 \<le> 2 ^ 301"
      using product_bounds [OF bh r1r] by simp_all
    with range obtain fw where fw: "d_mul (Num bh) (Num r1) = Num fw"
      and fwb: "B * (bh * r1) \<le> fw" "fw \<le> A * (bh * r1)"
      unfolding A_def B_def by (rule_tac a = bh and b = r1 in to_double_mul_pos) auto
    note fit = fits_tall [OF AB(1,2,5,6) pos(3,4) rhopos rpos r1b r2b(2) tall fwb]
    have "(1 + E) * bw \<le> 2 * bw"
      using E2 pos by (intro mult_right_mono) simp_all
    with fit(2) have "fw \<le> 2 * bw" by linarith
    with bw fit(1) obtain ox where ox: "d_div (d_sub (Num bw) (Num fw)) (Num 2) = Num ox"
      and oxb: "\<bar>ox - (bw - fw) / 2\<bar> \<le> bw / 2 ^ 50"
      by (rule_tac b = bw and f = fw in centred_offset) auto
    from bh pos obtain oy where oy: "d_div (d_sub (Num bh) (Num bh)) (Num 2) = Num oy"
      and oyb: "\<bar>oy - (bh - bh) / 2\<bar> \<le> bh / 2 ^ 50"
      by (rule_tac b = bh and f = bh in centred_offset) auto
    from False r1 r2 fw ox oy
    have "containImageInBox_d (Num iw) (Num ih) (Num bw) (Num bh)
        = \<lparr> fit_width = Num fw, fit_height = Num bh, offsetX = Num ox, offsetY = Num oy \<rparr>"
      by (simp add: containImageInBox_d_def Let_def js_gt_def)
    moreover from pos E_def have "bh \<le> (1 + 1 / 2 ^ 51) * bh" by simp
    ultimately show ?thesis
      using fit oxb oyb pos unfolding E_def by blast
  qed
qed

theorem containImageInBox_d_fits_witness:
  "(1 / 2 ^ 100 \<le> (7::real) \<and> (7::real) \<le> 2 ^ 100)
   \<and> (1 / 2 ^ 100 \<le> (25::real) \<and> (25::real) \<le> 2 ^ 100)
   \<and> (\<exists>fw fh ox oy.
         containImageInBox_d (Num 7) (Num 25) (Num 7) (Num 25)
         = \<lparr> fit_width = Num fw, fit_height = Num fh, offsetX = Num ox, offsetY = Num oy \<rparr>
         \<and> (fw = 7 \<or> fh = 25) \<and> 0 < fw \<and> 0 < fh
         \<and> fw \<le> (1 + 1 / 2 ^ 51) * 7 \<and> fh \<le> (1 + 1 / 2 ^ 51) * 25
         \<and> (1 - 1 / 2 ^ 51) * (7 / 25) \<le> fw / fh
         \<and> fw / fh \<le> (1 + 1 / 2 ^ 51) * (7 / 25)
         \<and> \<bar>ox - (7 - fw) / 2\<bar> \<le> 7 / 2 ^ 50
         \<and> \<bar>oy - (25 - fh) / 2\<bar> \<le> 25 / 2 ^ 50)"
  using containImageInBox_d_fits [of 7 25 7 25] by simp

section \<open>Coordinate transformation: the browser side\<close>

text \<open>
  C6. For a pixel rectangle of finite numbers and a container of positive width and height,
  \<open>normalizedToBrowser\<close> after \<open>browserToNormalized\<close>, with the same container, returns
  the rectangle.
\<close>

theorem browser_round_trip:
  assumes "0 < cw" and "0 < ch"
  shows "normalizedToBrowser
           (browserToNormalized (Num x) (Num y) (Num w) (Num h) (Num cw) (Num ch))
           (Num cw) (Num ch)
         = \<lparr> rect_x = Num x, rect_y = Num y, rect_width = Num w, rect_height = Num h \<rparr>"
  using assms by (simp add: normalizedToBrowser_def browserToNormalized_def)

theorem browser_round_trip_witness:
  "(0::real) < 800 \<and> (0::real) < 600
   \<and> normalizedToBrowser
        (browserToNormalized (Num 10) (Num 20) (Num 30) (Num 40) (Num 800) (Num 600))
        (Num 800) (Num 600)
      = \<lparr> rect_x = Num 10, rect_y = Num 20, rect_width = Num 30, rect_height = Num 40 \<rparr>"
  using browser_round_trip [of 800 600 10 20 30 40] by simp

text \<open>
  C7, as the spec states it, fails: neither function checks its arguments. A container of
  width 0 is not rejected, \<open>browserToNormalized\<close> returns an infinite \<open>xPercent\<close>; an
  asset of height 0 is not rejected, \<open>containImageInBox\<close> returns a NaN width.
\<close>

theorem no_rejection_counterexample:
  "xPercent (browserToNormalized (Num 10) (Num 20) (Num 30) (Num 40) (Num 0) (Num 0))
     = PosInf
   \<and> fit_width (containImageInBox (Num 0) (Num 0) (Num 100) (Num 50)) = NaN"
  by (simp add: browserToNormalized_def containImageInBox_def js_gt_def Let_def)

text \<open>
  C7, amended: neither function validates. \<open>browserToNormalized\<close> returns the four
  quotients for every container whose width and height are not 0; for a container width
  of 0 it returns an \<open>xPercent\<close> and a \<open>widthPercent\<close> that are NaN or infinite, and
  for a container height of 0 a \<open>yPercent\<close> and a \<open>heightPercent\<close> that are NaN or
  infinite. \<open>containImageInBox\<close> also returns a value on degenerate input: an asset of
  height 0 and positive width, in a box of nonzero height, is fitted to the box width with
  height 0; into a box of height 0 and positive width an asset of nonzero height is fitted
  with width 0 and height 0.
\<close>

theorem division_is_unchecked:
  "(cw \<noteq> 0 \<and> ch \<noteq> 0 \<longrightarrow>
      browserToNormalized (Num px) (Num py) (Num pw) (Num ph) (Num cw) (Num ch)
      = \<lparr> xPercent = Num (px / cw), yPercent = Num (py / ch),
          widthPercent = Num (pw / cw), heightPercent = Num (ph / ch) \<rparr>)
   \<and> \<not> js_finite (xPercent
         (browserToNormalized (Num px) (Num py) (Num pw) (Num ph) (Num 0) (Num ch)))
   \<and> \<not> js_finite (widthPercent
         (browserToNormalized (Num px) (Num py) (Num pw) (Num ph) (Num 0) (Num ch)))
   \<and> \<not> js_finite (yPercent
         (browserToNormalized (Num px) (Num py) (Num pw) (Num ph) (Num cw) (Num 0)))
   \<and> \<not> js_finite (heightPercent
         (browserToNormalized (Num px) (Num py) (Num pw) (Num ph) (Num cw) (Num 0)))
   \<and> (0 < iw \<and> boxH \<noteq> 0 \<longrightarrow>
        containImageInBox (Num iw) (Num 0) (Num boxW) (Num boxH)
        = \<lparr> fit_width = Num boxW, fit_height = Num 0, offsetX = Num 0,
            offsetY = Num (boxH / 2) \<rparr>)
   \<and> (ih \<noteq> 0 \<and> 0 < boxW \<longrightarrow>
        containImageInBox (Num iw) (Num ih) (Num boxW) (Num 0)
        = \<lparr> fit_width = Num 0, fit_height = Num 0, offsetX = Num (boxW / 2),
            offsetY = Num 0 \<rparr>)"
  by (simp add: browserToNormalized_def containImageInBox_def js_gt_def Let_def)

theorem division_is_unchecked_witness:
  "(800::real) \<noteq> 0 \<and> (600::real) \<noteq> 0
   \<and> browserToNormalized (Num 80) (Num 60) (Num 200) (Num 150) (Num 800) (Num 600)
      = \<lparr> xPercent = Num (80 / 800), yPercent = Num (60 / 600),
          widthPercent = Num (200 / 800), heightPercent = Num (150 / 600) \<rparr>
   \<and> (0::real) < 300 \<and> (50::real) \<noteq> 0
   \<and> containImageInBox (Num 300) (Num 0) (Num 100) (Num 50)
      = \<lparr> fit_width = Num 100, fit_height = Num 0, offsetX = Num 0,
          offsetY = Num (50 / 2) \<rparr>
   \<and> (100::real) \<noteq> 0 \<and> (0::real) < 100
   \<and> containImageInBox (Num 300) (Num 100) (Num 100) (Num 0)
      = \<lparr> fit_width = Num 0, fit_height = Num 0, offsetX = Num (100 / 2),
          offsetY = Num 0 \<rparr>"
  using division_is_unchecked [where cw = 800 and ch = 600 and px = 80 and py = 60
      and pw = 200 and ph = 150 and iw = 300 and boxH = 50 and boxW = 100 and ih = 100]
  by simp




section \<open>The small instance: the session\<close>

lemmas instance_defs = prepared_def stamped_def ticked_def preparedState_def
  stampedState_def tickedState_def contractDoc_def sigField_def stampField_def
  optionField_def auditEntry_def testEnv_def contract_def init_def
  sigPosition_def stampPosition_def optionPosition_def farPosition_def

lemmas route_defs = upload_def multer_single_def createField_def updateField_def
  setFieldValue_def Let_def
  AuditLog_create_def calculateHash_def out_of_range_def js_gt_def Field_validate_def
  position_validate_def percent_valid_def js_ge_def fieldTypes_def Document_validate_def

lemma run_prepared: "run testEnv init prepared = preparedState"
  by (simp add: instance_defs route_defs)

lemma run_append: "run e s (rs @ rs') = run e (run e s rs) rs'"
  by (induction rs arbitrary: s) simp_all

lemma run_stamped: "run testEnv init stamped = stampedState"
proof -
  have "run testEnv init stamped = run testEnv preparedState
      [CreateField alice 0 ''image'' None stampPosition None,
       SetFieldValue 2 (Some (VString ''data:image/jpeg;base64,/9j/4''))]"
    by (simp add: stamped_def run_append run_prepared)
  also have "\<dots> = stampedState"
    by (simp add: instance_defs route_defs)
  finally show ?thesis .
qed

lemma run_ticked: "run testEnv init ticked = tickedState"
proof -
  have "run testEnv init ticked = run testEnv preparedState
      [CreateField alice 0 ''radio'' None optionPosition None,
       SetFieldValue 2 (Some (VBool True))]"
    by (simp add: ticked_def run_append run_prepared)
  also have "\<dots> = tickedState"
    by (simp add: instance_defs route_defs)
  finally show ?thesis .
qed

section \<open>Field validation: properties\<close>

lemma percent_valid_in_unit: "percent_valid v = in_unit v"
  by (cases v) (simp_all add: percent_valid_def js_ge_def)

lemma position_validate_in_unit:
  "position_validate p = (in_unit (xPercent p) \<and> in_unit (yPercent p)
     \<and> in_unit (widthPercent p) \<and> in_unit (heightPercent p))"
  by (simp add: position_validate_def percent_valid_in_unit)

lemma out_of_range_outside_unit:
  "out_of_range p = (outside_unit (xPercent p) \<or> outside_unit (yPercent p)
     \<or> outside_unit (widthPercent p) \<or> outside_unit (heightPercent p))"
proof -
  have "(js_lt v (Num 0) \<or> js_gt v (Num 1)) = outside_unit v" for v
    by (cases v) (simp_all add: js_gt_def)
  then show ?thesis by (simp add: out_of_range_def)
qed

lemma update_first_mem:
  "find P xs = Some x \<Longrightarrow> y \<in> set (update_first P (\<lambda>_. y) xs)"
  by (induction xs) (auto split: if_splits)

lemma createField_accepts:
  assumes "createField who did ftype lbl pos req s = (FieldOk code f, s')"
  shows "position f = pos \<and> f \<in> set (db_fields s') \<and> position_validate pos"
  using assms
  by (auto simp: createField_def Let_def AuditLog_create_def Field_validate_def
      split: option.splits if_splits)

lemma updateField_accepts:
  assumes "updateField who fid (Some pos) lbl req s = (FieldOk code f, s')"
  shows "position f = pos \<and> f \<in> set (db_fields s') \<and> position_validate pos"
  using assms
  by (auto simp: updateField_def Let_def AuditLog_create_def update_first_mem
      split: option.splits if_splits)

text \<open>
  C9, as the spec states it, fails: after the session \<open>prepared\<close>, field creation
  accepts and stores a position with \<open>xPercent = 0.8\<close> and \<open>widthPercent = 0.5\<close>.
\<close>

theorem overflowing_position_is_stored:
  "fst (createField alice 0 ''image'' None stampPosition None (run testEnv init prepared))
     = FieldOk 201 (stampField\<lparr> fieldValue := None \<rparr>)
   \<and> stampField\<lparr> fieldValue := None \<rparr>
       \<in> set (db_fields (snd (createField alice 0 ''image'' None stampPosition None
                                (run testEnv init prepared))))
   \<and> js_gt (js_add (xPercent (position (stampField\<lparr> fieldValue := None \<rparr>)))
                    (widthPercent (position (stampField\<lparr> fieldValue := None \<rparr>))))
            (Num 1)"
  unfolding run_prepared
  by (simp add: instance_defs route_defs)

text \<open>
  C9, amended: every position that field creation or field update accepts and stores has
  each of its four percentages in \<open>[0, 1]\<close>; a position with a percentage below 0 or
  above 1, sent for an existing document (for an existing field), is rejected with the
  validation error 400 and nothing is stored. The sums \<open>xPercent + widthPercent\<close> and
  \<open>yPercent + heightPercent\<close> are not checked.
\<close>

theorem stored_percentages_in_unit_range:
  "(createField who did ftype lbl pos req s = (FieldOk code f, s') \<longrightarrow>
      position f = pos \<and> f \<in> set (db_fields s')
      \<and> in_unit (xPercent pos) \<and> in_unit (yPercent pos)
      \<and> in_unit (widthPercent pos) \<and> in_unit (heightPercent pos))
   \<and> (updateField who fid (Some pos) lbl req s = (FieldOk code f, s') \<longrightarrow>
        position f = pos \<and> f \<in> set (db_fields s')
        \<and> in_unit (xPercent pos) \<and> in_unit (yPercent pos)
        \<and> in_unit (widthPercent pos) \<and> in_unit (heightPercent pos))
   \<and> (find (\<lambda>d. docId d = did) (db_documents s) \<noteq> None
        \<and> (outside_unit (xPercent pos) \<or> outside_unit (yPercent pos)
             \<or> outside_unit (widthPercent pos) \<or> outside_unit (heightPercent pos)) \<longrightarrow>
        createField who did ftype lbl pos req s
        = (ErrorResponse 400 ''Position percentages must be between 0 and 1'', s))
   \<and> (find (\<lambda>f. fieldId f = fid) (db_fields s) \<noteq> None
        \<and> (outside_unit (xPercent pos) \<or> outside_unit (yPercent pos)
             \<or> outside_unit (widthPercent pos) \<or> outside_unit (heightPercent pos)) \<longrightarrow>
        updateField who fid (Some pos) lbl req s
        = (ErrorResponse 400 ''Position percentages must be between 0 and 1'', s))"
proof (intro conjI impI)
  assume "createField who did ftype lbl pos req s = (FieldOk code f, s')"
  from createField_accepts [OF this]
  show "position f = pos" and "f \<in> set (db_fields s')"
    and "in_unit (xPercent pos)" and "in_unit (yPercent pos)"
    and "in_unit (widthPercent pos)" and "in_unit (heightPercent pos)"
    by (simp_all add: position_validate_in_unit)
next
  assume "updateField who fid (Some pos) lbl req s = (FieldOk code f, s')"
  from updateField_accepts [OF this]
  show "position f = pos" and "f \<in> set (db_fields s')"
    and "in_unit (xPercent pos)" and "in_unit (yPercent pos)"
    and "in_unit (widthPercent pos)" and "in_unit (heightPercent pos)"
    by (simp_all add: position_validate_in_unit)
next
  assume "find (\<lambda>d. docId d = did) (db_documents s) \<noteq> None
        \<and> (outside_unit (xPercent pos) \<or> outside_unit (yPercent pos)
             \<or> outside_unit (widthPercent pos) \<or> outside_unit (heightPercent pos))"
  then show "createField who did ftype lbl pos req s
        = (ErrorResponse 400 ''Position percentages must be between 0 and 1'', s)"
    by (auto simp: createField_def out_of_range_outside_unit)
next
  assume "find (\<lambda>f. fieldId f = fid) (db_fields s) \<noteq> None
        \<and> (outside_unit (xPercent pos) \<or> outside_unit (yPercent pos)
             \<or> outside_unit (widthPercent pos) \<or> outside_unit (heightPercent pos))"
  then show "updateField who fid (Some pos) lbl req s
        = (ErrorResponse 400 ''Position percentages must be between 0 and 1'', s)"
    by (auto simp: updateField_def out_of_range_outside_unit)
qed

theorem stored_percentages_in_unit_range_witness:
  "createField alice 0 ''image'' None stampPosition None preparedState
     = (FieldOk 201 (stampField\<lparr> fieldValue := None \<rparr>),
        snd (createField alice 0 ''image'' None stampPosition None preparedState))
   \<and> position (stampField\<lparr> fieldValue := None \<rparr>) = stampPosition
   \<and> stampField\<lparr> fieldValue := None \<rparr>
       \<in> set (db_fields (snd (createField alice 0 ''image'' None stampPosition None
                                preparedState)))
   \<and> in_unit (xPercent stampPosition) \<and> in_unit (widthPercent stampPosition)
   \<and> updateField alice 1 (Some stampPosition) None None preparedState
     = (FieldOk 200 (sigField\<lparr> position := stampPosition \<rparr>),
        snd (updateField alice 1 (Some stampPosition) None None preparedState))
   \<and> sigField\<lparr> position := stampPosition \<rparr>
       \<in> set (db_fields (snd (updateField alice 1 (Some stampPosition) None None
                                preparedState)))
   \<and> find (\<lambda>d. docId d = 0) (db_documents preparedState) \<noteq> None
   \<and> outside_unit (xPercent farPosition)
   \<and> createField alice 0 ''image'' None farPosition None preparedState
     = (ErrorResponse 400 ''Position percentages must be between 0 and 1'', preparedState)
   \<and> find (\<lambda>f. fieldId f = 1) (db_fields preparedState) \<noteq> None
   \<and> updateField alice 1 (Some farPosition) None None preparedState
     = (ErrorResponse 400 ''Position percentages must be between 0 and 1'', preparedState)"
proof -
  have created: "createField alice 0 ''image'' None stampPosition None preparedState
      = (FieldOk 201 (stampField\<lparr> fieldValue := None \<rparr>),
         snd (createField alice 0 ''image'' None stampPosition None preparedState))"
    by (simp add: instance_defs route_defs)
  have updated: "updateField alice 1 (Some stampPosition) None None preparedState
      = (FieldOk 200 (sigField\<lparr> position := stampPosition \<rparr>),
         snd (updateField alice 1 (Some stampPosition) None None preparedState))"
    by (simp add: instance_defs route_defs)
  have doc: "find (\<lambda>d. docId d = 0) (db_documents preparedState) \<noteq> None"
    by (simp add: instance_defs)
  have fld: "find (\<lambda>f. fieldId f = 1) (db_fields preparedState) \<noteq> None"
    by (simp add: instance_defs)
  have far: "outside_unit (xPercent farPosition)"
    by (simp add: farPosition_def)
  from created updated doc fld far
    stored_percentages_in_unit_range
      [where who = alice and did = 0 and ftype = "''image''" and lbl = None
         and pos = stampPosition and req = None and s = preparedState and code = 201
         and f = "stampField\<lparr> fieldValue := None \<rparr>"
         and s' = "snd (createField alice 0 ''image'' None stampPosition None preparedState)"]
    stored_percentages_in_unit_range
      [where who = alice and fid = 1 and lbl = None
         and pos = stampPosition and req = None and s = preparedState and code = 200
         and f = "sigField\<lparr> position := stampPosition \<rparr>"
         and s' = "snd (updateField alice 1 (Some stampPosition) None None preparedState)"]
    stored_percentages_in_unit_range
      [where who = alice and did = 0 and fid = 1 and ftype = "''image''" and lbl = None
         and pos = farPosition and req = None and s = preparedState]
  show ?thesis
    by (simp add: stampField_def)
qed

section \<open>Signing: properties\<close>

lemma processField_length:
  "processField e pdfDoc field = Inr pdfDoc1 \<Longrightarrow> length pdfDoc1 = length pdfDoc"
  by (auto simp: processField_def Let_def split: if_splits sum.splits)

lemma processFields_append:
  "processFields e pdfDoc (flds @ more_flds)
   = (case processFields e pdfDoc flds of
        Inl err \<Rightarrow> Inl err
      | Inr pdfDoc1 \<Rightarrow> processFields e pdfDoc1 more_flds)"
  by (induction flds arbitrary: pdfDoc) (simp_all split: sum.splits)

text \<open>
  C10. The route embeds the valued fields of the document one after the other into the
  loaded PDF. If embedding any one of them fails, the fields before it having been
  embedded, whatever the reason (the page index, the value, the asset, or a drawing call
  of the library that throws), the signing route answers 500 and leaves the state as it
  was: no signed file is written, the document record keeps its status,
  \<open>signedFileUrl\<close> and \<open>signedHash\<close>, and no audit record is appended.
\<close>

theorem signPdf_aborts_when_a_field_fails:
  assumes "find (\<lambda>d. docId d = did) (db_documents s) = Some document"
      and "disk s (originalFileUrl document) = Some pdfBuffer"
      and "pdf_load e pdfBuffer = Some pdfDoc"
      and "valuedFields did s = earlier @ field # later"
      and "processFields e pdfDoc earlier = Inr pdfDoc1"
      and "processField e pdfDoc1 field = Inl err"
  shows "signPdf e who did uuid s = (ErrorResponse 500 ''Failed to sign PDF'', s)"
proof -
  from assms(4-6) have "processFields e pdfDoc (valuedFields did s) = Inl err"
    by (simp add: processFields_append)
  moreover from assms(4) have "valuedFields did s \<noteq> []" by simp
  ultimately show ?thesis
    using assms(1-3) by (simp add: signPdf_def Let_def)
qed

text \<open>More generally, the route changes the state only when it answers with success.\<close>

lemma signPdf_changes_only_on_success:
  assumes "signPdf e who did uuid s = (resp, s')"
  shows "s' = s \<or> (\<exists>url hb ha n. resp = SignOk url hb ha n)"
  using assms
  by (auto simp: signPdf_def Let_def split: option.splits if_splits sum.splits)

text \<open>
  Whatever the libraries do, a successful signing appends a \<open>signed\<close> record whose
  \<open>hashBefore\<close> is the digest of the file at the document's \<open>originalFileUrl\<close>:
  the upload, also when the document has been signed before.
\<close>

lemma signPdf_success_record:
  assumes "signPdf e who did uuid s = (SignOk url hb ha n, s')"
  shows "\<exists>document b.
           find (\<lambda>d. docId d = did) (db_documents s) = Some document
           \<and> disk s (originalFileUrl document) = Some b
           \<and> hb = calculateHash e b
           \<and> db_auditLogs s'
               = db_auditLogs s
                 @ [\<lparr> logDocumentId = did, action = ''signed'',
                      documentHashBefore = Some (calculateHash e b),
                      documentHashAfter = Some ha, performedBy = who \<rparr>]"
  using assms
  by (auto simp: signPdf_def Let_def AuditLog_create_def
      split: option.splits if_splits sum.splits)

lemmas sign_defs = processField_def embedByType_def embedImage_def stripDataUrlPrefix_def
  isWordChar_def draw_def containImageInBox_def transformToPdfCoordinates_def
  valuedFields_def Let_def

lemma first_field_embeds: "processFields testEnv [blankPage] [sigField] = Inr [signedPage]"
  by (simp add: sign_defs blankPage_def signedPage_def sigField_def sigPosition_def
      testEnv_def js_gt_def)

theorem signPdf_aborts_when_a_field_fails_witness:
  "find (\<lambda>d. docId d = 0) (db_documents stampedState) = Some contractDoc
   \<and> disk stampedState (originalFileUrl contractDoc) = Some ''%PDF-1.7 contract''
   \<and> pdf_load testEnv ''%PDF-1.7 contract'' = Some [blankPage]
   \<and> valuedFields 0 stampedState = [sigField] @ stampField # []
   \<and> processFields testEnv [blankPage] [sigField] = Inr [signedPage]
   \<and> processField testEnv [signedPage] stampField = Inl AssetError
   \<and> signPdf testEnv alice 0 ''u2'' stampedState
       = (ErrorResponse 500 ''Failed to sign PDF'', stampedState)
   \<and> find (\<lambda>d. docId d = 0) (db_documents tickedState) = Some contractDoc
   \<and> disk tickedState (originalFileUrl contractDoc) = Some ''%PDF-1.7 contract''
   \<and> valuedFields 0 tickedState = [sigField] @ optionField # []
   \<and> processField testEnv [signedPage] optionField = Inl DrawError
   \<and> signPdf testEnv alice 0 ''u2'' tickedState
       = (ErrorResponse 500 ''Failed to sign PDF'', tickedState)"
proof -
  have doc: "find (\<lambda>d. docId d = 0) (db_documents stampedState) = Some contractDoc"
    by (simp add: stampedState_def contractDoc_def)
  have on_disk: "disk stampedState (originalFileUrl contractDoc) = Some ''%PDF-1.7 contract''"
    by (simp add: stampedState_def contractDoc_def)
  have loaded: "pdf_load testEnv ''%PDF-1.7 contract'' = Some [blankPage]"
    by (simp add: testEnv_def blankPage_def)
  have valued: "valuedFields 0 stampedState = [sigField] @ stampField # []"
    by (simp add: valuedFields_def stampedState_def stampField_def sigField_def)
  have fails: "processField testEnv [signedPage] stampField = Inl AssetError"
    by (simp add: processField_def embedByType_def embedImage_def Let_def
        stampField_def stampPosition_def testEnv_def signedPage_def)
  have doc': "find (\<lambda>d. docId d = 0) (db_documents tickedState) = Some contractDoc"
    by (simp add: tickedState_def stampedState_def contractDoc_def)
  have on_disk': "disk tickedState (originalFileUrl contractDoc) = Some ''%PDF-1.7 contract''"
    by (simp add: tickedState_def stampedState_def contractDoc_def)
  have valued': "valuedFields 0 tickedState = [sigField] @ optionField # []"
    by (simp add: valuedFields_def tickedState_def stampedState_def optionField_def
        sigField_def)
  have fails': "processField testEnv [signedPage] optionField = Inl DrawError"
    by (simp add: processField_def embedByType_def embedRadioFill_def Let_def
        optionField_def optionPosition_def testEnv_def signedPage_def)
  from doc on_disk loaded valued first_field_embeds fails
    doc' on_disk' valued' fails'
    signPdf_aborts_when_a_field_fails
      [OF doc on_disk loaded valued first_field_embeds fails,
       where who = alice and uuid = "''u2''"]
    signPdf_aborts_when_a_field_fails
      [OF doc' on_disk' loaded valued' first_field_embeds fails',
       where who = alice and uuid = "''u2''"]
  show ?thesis by simp
qed

section \<open>The audit trail: the invariant\<close>

lemma uploadedFirst_snoc:
  "uploadedFirst h rs \<Longrightarrow> laterOk h r \<Longrightarrow> uploadedFirst h (rs @ [r])"
  by (cases rs) simp_all

lemma trailOn_names_mono:
  "trailOn e N dsk keys fdocs logs n \<Longrightarrow> N \<subseteq> N' \<Longrightarrow> trailOn e N' dsk keys fdocs logs n"
  unfolding trailOn_def by (fastforce split: prod.splits)

lemma trailOn_fields:
  "trailOn e N dsk keys fdocs logs n \<Longrightarrow> \<forall>i \<in> set fdocs'. i < n
   \<Longrightarrow> trailOn e N dsk keys fdocs' logs n"
  unfolding trailOn_def by simp

lemma trailOn_Suc:
  "trailOn e N dsk keys fdocs logs n \<Longrightarrow> trailOn e N dsk keys fdocs logs (Suc n)"
  unfolding trailOn_def by (auto simp: less_Suc_eq)

lemma trailOn_log_plain:
  assumes "trailOn e N dsk keys fdocs logs n" and "d < n" and "a \<noteq> ''signed''"
  shows "trailOn e N dsk keys fdocs
           (logs @ [\<lparr> logDocumentId = d, action = a, documentHashBefore = None,
                      documentHashAfter = None, performedBy = who \<rparr>]) n"
  using assms unfolding trailOn_def
  by (auto simp: uploadedFirst_snoc laterOk_def split: prod.splits)

lemma trailOn_log_signed:
  assumes "trailOn e N dsk keys fdocs logs n" and "(d, h, u) \<in> set keys"
  shows "trailOn e N dsk keys fdocs
           (logs @ [\<lparr> logDocumentId = d, action = ''signed'', documentHashBefore = Some h,
                      documentHashAfter = Some h', performedBy = who \<rparr>]) n"
proof -
  define r where "r = \<lparr> logDocumentId = d, action = ''signed'', documentHashBefore = Some h,
                      documentHashAfter = Some h', performedBy = who \<rparr>"
  have later: "laterOk h r" by (simp add: laterOk_def r_def)
  have rd: "logDocumentId r = d" by (simp add: r_def)
  from assms(1) have dist: "distinct (map fst keys)" by (simp add: trailOn_def)
  from assms(1,2) have "d < n" by (auto simp: trailOn_def)
  with assms(1) rd have bound: "\<forall>x \<in> set (logs @ [r]). logDocumentId x < n"
    by (auto simp: trailOn_def)
  have "uploadedFirst h1 (filter (\<lambda>x. logDocumentId x = i) (logs @ [r]))"
    if mem: "(i, h1, u1) \<in> set keys" for i h1 u1
  proof (cases "i = d")
    case True
    with mem assms(2) dist have "h1 = h"
      by (metis eq_key_imp_eq_value prod.inject)
    moreover from assms(1) mem have "uploadedFirst h1 (filter (\<lambda>x. logDocumentId x = i) logs)"
      by (auto simp: trailOn_def)
    ultimately show ?thesis using True later rd by (simp add: uploadedFirst_snoc)
  next
    case False
    moreover from assms(1) mem have "uploadedFirst h1 (filter (\<lambda>x. logDocumentId x = i) logs)"
      by (auto simp: trailOn_def)
    ultimately show ?thesis using rd by simp
  qed
  then have "\<forall>(i, h1, u1) \<in> set keys.
      uploadedFirst h1 (filter (\<lambda>x. logDocumentId x = i) (logs @ [r]))"
    by auto
  with assms(1) bound show ?thesis
    unfolding trailOn_def r_def by simp
qed

lemma trailOn_disk_signed:
  assumes "trailOn e N dsk keys fdocs logs n"
  shows "trailOn e N (dsk(''/signed/'' @ nm \<mapsto> b)) keys fdocs logs n"
  using assms unfolding trailOn_def by (fastforce split: prod.splits)

lemma trailOn_disk_upload:
  assumes "trailOn e N dsk keys fdocs logs n" and "nm \<notin> N"
  shows "trailOn e (insert nm N) (dsk(''/uploads/'' @ nm \<mapsto> b)) keys fdocs logs n"
  using assms unfolding trailOn_def by (fastforce split: prod.splits)

lemma trailOn_new_doc:
  assumes "trailOn e N dsk keys fdocs logs n" and "nm \<in> N"
    and "dsk (''/uploads/'' @ nm) = Some b"
  shows "trailOn e N dsk (keys @ [(n, calculateHash e b, ''/uploads/'' @ nm)]) fdocs
           (logs @ [\<lparr> logDocumentId = n, action = ''uploaded'', documentHashBefore = None,
                      documentHashAfter = Some (calculateHash e b), performedBy = who \<rparr>])
           (Suc n)"
proof -
  from assms(1) have old: "filter (\<lambda>r. logDocumentId r = n) logs = []"
    by (auto simp: trailOn_def filter_empty_conv)
  from assms(1) have fresh: "n \<notin> fst ` set keys"
    by (auto simp: trailOn_def)
  have other: "filter (\<lambda>r. logDocumentId r = i) 
        (logs @ [\<lparr> logDocumentId = n, action = ''uploaded'', documentHashBefore = None,
                      documentHashAfter = Some (calculateHash e b), performedBy = who \<rparr>])
      = filter (\<lambda>r. logDocumentId r = i) logs" if "(i, h, u) \<in> set keys" for i h u
    using that fresh by force
  from assms old fresh show ?thesis unfolding trailOn_def
    apply (intro conjI)
         apply (auto simp: less_Suc_eq)[4]
     apply (fastforce split: prod.splits)
    apply (auto simp: other split: prod.splits)
    done
qed

lemma map_docKey_update_status:
  "map docKey (update_first P (\<lambda>d. d\<lparr> status := x \<rparr>) ds) = map docKey ds"
  by (induction ds) (simp_all add: docKey_def)

lemma map_docKey_update_found:
  "find P ds = Some d \<Longrightarrow> docKey d' = docKey d
   \<Longrightarrow> map docKey (update_first P (\<lambda>_. d') ds) = map docKey ds"
  by (induction ds) (auto split: if_splits)

lemma find_SomeD: "find P xs = Some x \<Longrightarrow> x \<in> set xs \<and> P x"
  by (induction xs) (auto split: if_splits)

lemma set_update_first: "set (update_first P (\<lambda>_. y) xs) \<subseteq> insert y (set xs)"
  by (induction xs) auto

lemma set_delete_first: "set (delete_first P xs) \<subseteq> set xs"
  by (induction xs) auto

lemma trailInv_field_bound:
  "trailInv e N s \<Longrightarrow> f \<in> set (db_fields s) \<Longrightarrow> documentId f < nextId s"
  by (simp add: trailInv_def trailOn_def)

lemma trailInv_doc_bound:
  "trailInv e N s \<Longrightarrow> d \<in> set (db_documents s) \<Longrightarrow> docId d < nextId s"
  by (force simp: trailInv_def trailOn_def docKey_def)

lemma createField_trailInv:
  assumes "trailInv e N s"
  shows "trailInv e N (snd (createField who did ftype lbl pos req s))"
proof (cases "find (\<lambda>d. docId d = did) (db_documents s)")
  case None
  with assms show ?thesis by (simp add: createField_def)
next
  case (Some document)
  then have "document \<in> set (db_documents s)" and "docId document = did"
    by (auto dest: find_SomeD)
  with assms have did: "did < nextId s" by (auto dest: trailInv_doc_bound)
  from assms have "trailOn e N (disk s) (map docKey (db_documents s))
      (map documentId (db_fields s)) (db_auditLogs s) (Suc (nextId s))"
    unfolding trailInv_def by (rule trailOn_Suc)
  note t1 = this
  have "\<forall>i \<in> set (map documentId (db_fields s) @ [did]). i < Suc (nextId s)"
    using t1 did by (auto simp: trailOn_def)
  with t1 have "trailOn e N (disk s) (map docKey (db_documents s))
      (map documentId (db_fields s) @ [did]) (db_auditLogs s) (Suc (nextId s))"
    by (rule trailOn_fields)
  then have "trailOn e N (disk s) (map docKey (db_documents s))
      (map documentId (db_fields s) @ [did])
      (db_auditLogs s @ [\<lparr> logDocumentId = did, action = ''field_added'',
          documentHashBefore = None, documentHashAfter = None, performedBy = who \<rparr>])
      (Suc (nextId s))"
    using did by (intro trailOn_log_plain) simp_all
  with Some assms show ?thesis
    by (simp add: createField_def Let_def trailInv_def AuditLog_create_def
        map_docKey_update_status)
qed

lemma updateField_trailInv:
  assumes "trailInv e N s"
  shows "trailInv e N (snd (updateField who fid pos lbl req s))"
proof (cases "find (\<lambda>f. fieldId f = fid) (db_fields s)")
  case None
  with assms show ?thesis by (simp add: updateField_def)
next
  case (Some field)
  then have "field \<in> set (db_fields s)" by (auto dest: find_SomeD)
  with assms have bound: "documentId field < nextId s" by (rule trailInv_field_bound)
  define field3 where "field3 =
      (case req of None \<Rightarrow> (case lbl of None \<Rightarrow> (case pos of None \<Rightarrow> field | Some p \<Rightarrow> field\<lparr> position := p \<rparr>)
          | Some l \<Rightarrow> (case pos of None \<Rightarrow> field | Some p \<Rightarrow> field\<lparr> position := p \<rparr>)\<lparr> label := l \<rparr>)
       | Some r \<Rightarrow> (case lbl of None \<Rightarrow> (case pos of None \<Rightarrow> field | Some p \<Rightarrow> field\<lparr> position := p \<rparr>)
          | Some l \<Rightarrow> (case pos of None \<Rightarrow> field | Some p \<Rightarrow> field\<lparr> position := p \<rparr>)\<lparr> label := l \<rparr>)\<lparr> required := r \<rparr>)"
  have doc3: "documentId field3 = documentId field"
    by (simp add: field3_def split: option.splits)
  have "\<forall>i \<in> set (map documentId
      (update_first (\<lambda>f. fieldId f = fid) (\<lambda>f. field3) (db_fields s))). i < nextId s"
    using set_update_first [of "\<lambda>f. fieldId f = fid" field3 "db_fields s"] assms bound doc3
    by (auto dest: trailInv_field_bound)
  with assms have "trailOn e N (disk s) (map docKey (db_documents s))
      (map documentId (update_first (\<lambda>f. fieldId f = fid) (\<lambda>f. field3) (db_fields s)))
      (db_auditLogs s) (nextId s)"
    unfolding trailInv_def by (rule trailOn_fields)
  then have "trailOn e N (disk s) (map docKey (db_documents s))
      (map documentId (update_first (\<lambda>f. fieldId f = fid) (\<lambda>f. field3) (db_fields s)))
      (db_auditLogs s @ [\<lparr> logDocumentId = documentId field3, action = ''field_modified'',
          documentHashBefore = None, documentHashAfter = None, performedBy = who \<rparr>])
      (nextId s)"
    using bound doc3 by (intro trailOn_log_plain) simp_all
  with Some assms show ?thesis
    by (simp add: updateField_def Let_def trailInv_def AuditLog_create_def field3_def)
qed

lemma deleteField_trailInv:
  assumes "trailInv e N s"
  shows "trailInv e N (snd (deleteField who fid s))"
proof (cases "find (\<lambda>f. fieldId f = fid) (db_fields s)")
  case None
  with assms show ?thesis by (simp add: deleteField_def)
next
  case (Some field)
  then have "field \<in> set (db_fields s)" by (auto dest: find_SomeD)
  with assms have bound: "documentId field < nextId s" by (rule trailInv_field_bound)
  have "\<forall>i \<in> set (map documentId (delete_first (\<lambda>f. fieldId f = fid) (db_fields s))).
      i < nextId s"
    using set_delete_first [of "\<lambda>f. fieldId f = fid" "db_fields s"] assms
    by (auto dest: trailInv_field_bound)
  with assms have "trailOn e N (disk s) (map docKey (db_documents s))
      (map documentId (delete_first (\<lambda>f. fieldId f = fid) (db_fields s)))
      (db_auditLogs s) (nextId s)"
    unfolding trailInv_def by (rule trailOn_fields)
  then have "trailOn e N (disk s) (map docKey (db_documents s))
      (map documentId (delete_first (\<lambda>f. fieldId f = fid) (db_fields s)))
      (db_auditLogs s @ [\<lparr> logDocumentId = documentId field, action = ''field_deleted'',
          documentHashBefore = None, documentHashAfter = None, performedBy = who \<rparr>])
      (nextId s)"
    using bound by (intro trailOn_log_plain) simp_all
  with Some show ?thesis
    by (simp add: deleteField_def Let_def trailInv_def AuditLog_create_def)
qed

lemma setFieldValue_trailInv:
  assumes "trailInv e N s"
  shows "trailInv e N (snd (setFieldValue fid v s))"
proof (cases "find (\<lambda>f. fieldId f = fid) (db_fields s)")
  case None
  with assms show ?thesis by (simp add: setFieldValue_def)
next
  case (Some field)
  then have "field \<in> set (db_fields s)" by (auto dest: find_SomeD)
  with assms have bound: "documentId field < nextId s" by (rule trailInv_field_bound)
  have "\<forall>i \<in> set (map documentId
      (update_first (\<lambda>f. fieldId f = fid) (\<lambda>f. field\<lparr> fieldValue := v \<rparr>) (db_fields s))).
      i < nextId s"
    using set_update_first [of "\<lambda>f. fieldId f = fid" "field\<lparr> fieldValue := v \<rparr>" "db_fields s"]
      assms bound
    by (auto dest: trailInv_field_bound)
  with assms have "trailOn e N (disk s) (map docKey (db_documents s))
      (map documentId
        (update_first (\<lambda>f. fieldId f = fid) (\<lambda>f. field\<lparr> fieldValue := v \<rparr>) (db_fields s)))
      (db_auditLogs s) (nextId s)"
    unfolding trailInv_def by (rule trailOn_fields)
  with Some show ?thesis
    by (simp add: setFieldValue_def Let_def trailInv_def)
qed

lemma trailInv_stored_hash:
  assumes "trailInv e N s" and "d \<in> set (db_documents s)"
    and "disk s (originalFileUrl d) = Some b"
  shows "originalHash d = calculateHash e b"
proof -
  from assms(2) have "docKey d \<in> set (map docKey (db_documents s))" by simp
  with assms(1) have "\<exists>nm b'. originalFileUrl d = ''/uploads/'' @ nm \<and> nm \<in> N
      \<and> disk s (originalFileUrl d) = Some b' \<and> originalHash d = calculateHash e b'"
    unfolding trailInv_def trailOn_def docKey_def by fastforce
  with assms(3) show ?thesis by auto
qed

lemma signPdf_trailInv:
  assumes "trailInv e N s"
  shows "trailInv e N (snd (signPdf e who did uuid s))"
proof (cases "find (\<lambda>d. docId d = did) (db_documents s)")
  case None
  with assms show ?thesis by (simp add: signPdf_def)
next
  case found: (Some document)
  then have mem: "document \<in> set (db_documents s)" and did: "docId document = did"
    by (auto dest: find_SomeD)
  show ?thesis
  proof (cases "valuedFields did s = []")
    case True
    with found assms show ?thesis by (simp add: signPdf_def)
  next
    case valued: False
    show ?thesis
    proof (cases "disk s (originalFileUrl document)")
      case None
      with found valued assms show ?thesis by (simp add: signPdf_def)
    next
      case on_disk: (Some pdfBuffer)
      show ?thesis
      proof (cases "pdf_load e pdfBuffer")
        case None
        with found valued on_disk assms show ?thesis by (simp add: signPdf_def)
      next
        case loaded: (Some pdfDoc)
        show ?thesis
        proof (cases "processFields e pdfDoc (valuedFields did s)")
          case (Inl err)
          with found valued on_disk loaded assms show ?thesis by (simp add: signPdf_def)
        next
          case processed: (Inr signedDoc)
          show ?thesis
          proof (cases "pdf_save e signedDoc")
            case None
            with found valued on_disk loaded processed assms show ?thesis
              by (simp add: signPdf_def)
          next
            case saved: (Some signedBuffer)
            define document1 where "document1 = document
                \<lparr> signedFileUrl := Some (''/signed/'' @ ''signed-'' @ uuid @ ''.pdf''),
                  signedHash := Some (calculateHash e signedBuffer),
                  status := ''signed'' \<rparr>"
            have key1: "docKey document1 = docKey document"
              by (simp add: document1_def docKey_def)
            from found key1 have keys: "map docKey
                (update_first (\<lambda>d. docId d = did) (\<lambda>d. document1) (db_documents s))
                = map docKey (db_documents s)"
              by (rule map_docKey_update_found)
            from assms mem on_disk have hash: "originalHash document = calculateHash e pdfBuffer"
              by (rule trailInv_stored_hash)
            from mem did hash have inkeys: "(did, calculateHash e pdfBuffer,
                originalFileUrl document) \<in> set (map docKey (db_documents s))"
              by (force simp: docKey_def)
            from assms have "trailOn e N
                ((disk s)(''/signed/'' @ ''signed-'' @ uuid @ ''.pdf'' \<mapsto> signedBuffer))
                (map docKey (db_documents s)) (map documentId (db_fields s))
                (db_auditLogs s) (nextId s)"
              unfolding trailInv_def by (rule trailOn_disk_signed)
            then have "trailOn e N
                ((disk s)(''/signed/'' @ ''signed-'' @ uuid @ ''.pdf'' \<mapsto> signedBuffer))
                (map docKey (db_documents s)) (map documentId (db_fields s))
                (db_auditLogs s @ [\<lparr> logDocumentId = did, action = ''signed'',
                    documentHashBefore = Some (calculateHash e pdfBuffer),
                    documentHashAfter = Some (calculateHash e signedBuffer),
                    performedBy = who \<rparr>]) (nextId s)"
              using inkeys by (rule trailOn_log_signed)
            with found valued on_disk loaded processed saved keys show ?thesis
              by (simp add: signPdf_def Let_def trailInv_def AuditLog_create_def
                  document1_def)
          qed
        qed
      qed
    qed
  qed
qed

lemma upload_trailInv:
  assumes "trailInv e N s"
    and "\<And>file uuid. upl = Some (file, uuid) \<Longrightarrow> uuid @ ''-'' @ originalname file \<notin> N"
  shows "trailInv e (N \<union> set (uploadNames [Upload who upl])) (snd (upload e who upl s))"
proof (cases upl)
  case None
  with assms(1) show ?thesis by (simp add: upload_def multer_single_def)
next
  case (Some pair)
  obtain upfile uuid where pair: "pair = (upfile, uuid)" by (cases pair)
  define nm where "nm = uuid @ ''-'' @ originalname upfile"
  from assms(2) Some pair have fresh: "nm \<notin> N" by (simp add: nm_def)
  from Some pair have names: "N \<union> set (uploadNames [Upload who upl]) = insert nm N"
    by (simp add: nm_def)
  from assms(1) have wider: "trailInv e (insert nm N) s"
    unfolding trailInv_def by (rule trailOn_names_mono) auto
  show ?thesis
  proof (cases "mimetype upfile \<noteq> ''application/pdf''
                \<or> 10 * 1024 * 1024 < length (content upfile)")
    case True
    with Some pair wider names show ?thesis
      by (auto simp: upload_def multer_single_def)
  next
    case accepted: False
    from assms(1) fresh have stored: "trailOn e (insert nm N)
        ((disk s)(''/uploads/'' @ nm \<mapsto> content upfile))
        (map docKey (db_documents s)) (map documentId (db_fields s))
        (db_auditLogs s) (nextId s)"
      unfolding trailInv_def by (rule trailOn_disk_upload)
    show ?thesis
    proof (cases "pdf_load e (content upfile)")
      case None
      with Some pair accepted stored names show ?thesis
        by (simp add: upload_def multer_single_def Let_def trailInv_def nm_def)
    next
      case (Some pdfDoc)
      from stored have "trailOn e (insert nm N)
          ((disk s)(''/uploads/'' @ nm \<mapsto> content upfile))
          (map docKey (db_documents s)
             @ [(nextId s, calculateHash e (content upfile), ''/uploads/'' @ nm)])
          (map documentId (db_fields s))
          (db_auditLogs s @ [\<lparr> logDocumentId = nextId s, action = ''uploaded'',
              documentHashBefore = None,
              documentHashAfter = Some (calculateHash e (content upfile)),
              performedBy = who \<rparr>])
          (Suc (nextId s))"
        by (rule trailOn_new_doc) simp_all
      with \<open>upl = Some pair\<close> pair accepted Some names stored show ?thesis
        by (simp add: upload_def multer_single_def Let_def trailInv_def nm_def
            AuditLog_create_def docKey_def)
    qed
  qed
qed

lemma handle_trailInv:
  assumes "trailInv e N s" and "set (uploadNames [r]) \<inter> N = {}"
  shows "trailInv e (N \<union> set (uploadNames [r])) (snd (handle e r s))"
proof (cases r)
  case (Upload who upl)
  from assms(2) Upload
  have fresh: "\<And>upfile uuid. upl = Some (upfile, uuid)
      \<Longrightarrow> uuid @ ''-'' @ originalname upfile \<notin> N"
    by auto
  from assms(1) fresh
  have "trailInv e (N \<union> set (uploadNames [Upload who upl])) (snd (upload e who upl s))"
    by (rule upload_trailInv)
  with Upload show ?thesis by simp
next
  case (CreateField who did ftype lbl pos req)
  with assms(1) show ?thesis by (simp add: createField_trailInv)
next
  case (UpdateField who fid pos lbl req)
  with assms(1) show ?thesis by (simp add: updateField_trailInv)
next
  case (DeleteField who fid)
  with assms(1) show ?thesis by (simp add: deleteField_trailInv)
next
  case (SetFieldValue fid v)
  with assms(1) show ?thesis by (simp add: setFieldValue_trailInv)
next
  case (SignPdf who did uuid)
  with assms(1) show ?thesis by (simp add: signPdf_trailInv)
qed

lemma uploadNames_Cons: "uploadNames (r # rs) = uploadNames [r] @ uploadNames rs"
proof (cases r)
  case (Upload who upl)
  then show ?thesis by (cases upl) auto
qed simp_all

lemma run_trailInv:
  assumes "trailInv e N s" and "distinct (uploadNames rs)"
    and "set (uploadNames rs) \<inter> N = {}"
  shows "trailInv e (N \<union> set (uploadNames rs)) (run e s rs)"
  using assms
proof (induction rs arbitrary: s N)
  case Nil
  then show ?case by simp
next
  case (Cons r rs)
  have split: "uploadNames (r # rs) = uploadNames [r] @ uploadNames rs"
    by (rule uploadNames_Cons)
  from Cons.prems(3) split have "set (uploadNames [r]) \<inter> N = {}" by auto
  with Cons.prems(1)
  have step: "trailInv e (N \<union> set (uploadNames [r])) (snd (handle e r s))"
    by (rule handle_trailInv)
  from Cons.prems(2) split have "distinct (uploadNames rs)" by simp
  moreover from Cons.prems(2,3) split
  have "set (uploadNames rs) \<inter> (N \<union> set (uploadNames [r])) = {}" by auto
  ultimately have "trailInv e (N \<union> set (uploadNames [r]) \<union> set (uploadNames rs))
      (run e (snd (handle e r s)) rs)"
    using step Cons.IH by blast
  with split show ?case by (simp add: Un_assoc)
qed

lemma init_trailInv: "trailInv e {} init"
  by (simp add: trailInv_def trailOn_def init_def)

section \<open>The audit trail: the hash chain\<close>

lemma sign_prepared:
  "snd (signPdf testEnv alice 0 ''u2'' preparedState)
   = preparedState
       \<lparr> disk := (disk preparedState)(''/signed/signed-u2.pdf'' \<mapsto> ''%PDF signed *''),
         db_documents := [signedContract ''u2''],
         db_auditLogs := db_auditLogs preparedState
            @ [auditEntry ''signed'' (Some ''sha256:%PDF-1.7 contract'')
                 (Some ''sha256:%PDF signed *'')] \<rparr>"
  by (simp add: signPdf_def sign_defs instance_defs signedContract_def AuditLog_create_def
      calculateHash_def js_gt_def)

lemma sign_again:
  "snd (signPdf testEnv alice 0 ''u3'' (snd (signPdf testEnv alice 0 ''u2'' preparedState)))
   = preparedState
       \<lparr> disk := (disk preparedState)(''/signed/signed-u2.pdf'' \<mapsto> ''%PDF signed *'',
                                      ''/signed/signed-u3.pdf'' \<mapsto> ''%PDF signed *''),
         db_documents := [signedContract ''u3''],
         db_auditLogs := db_auditLogs preparedState
            @ [auditEntry ''signed'' (Some ''sha256:%PDF-1.7 contract'')
                 (Some ''sha256:%PDF signed *''),
               auditEntry ''signed'' (Some ''sha256:%PDF-1.7 contract'')
                 (Some ''sha256:%PDF signed *'')] \<rparr>"
  unfolding sign_prepared
  by (simp add: signPdf_def sign_defs instance_defs signedContract_def AuditLog_create_def
      calculateHash_def js_gt_def)

lemma run_signedOnce:
  "run testEnv init signedOnce = snd (signPdf testEnv alice 0 ''u2'' preparedState)"
  by (simp add: signedOnce_def run_append run_prepared)

lemma run_signedTwice:
  "run testEnv init signedTwice
   = snd (signPdf testEnv alice 0 ''u3'' (snd (signPdf testEnv alice 0 ''u2'' preparedState)))"
  by (simp add: signedTwice_def run_append run_prepared)

text \<open>
  C2, as the spec states it, fails. In the session \<open>signedTwice\<close> the contract is
  uploaded and signed, and signed again; the uploaded file is never modified. The second
  \<open>signed\<close> record has the digest of the upload as its \<open>hashBefore\<close>, because the
  route always reads the original file, but the record before it, the first \<open>signed\<close>
  record, has the digest of the signed file as its \<open>hashAfter\<close>.
\<close>

theorem second_signing_breaks_chain:
  "disk (run testEnv init signedTwice) (originalFileUrl contractDoc) = Some (content contract)
   \<and> map (\<lambda>r. (action r, documentHashBefore r, documentHashAfter r))
        (recordsOf 0 (run testEnv init signedTwice))
     = [(''uploaded'', None, Some ''sha256:%PDF-1.7 contract''),
        (''field_added'', None, None),
        (''signed'', Some ''sha256:%PDF-1.7 contract'', Some ''sha256:%PDF signed *''),
        (''signed'', Some ''sha256:%PDF-1.7 contract'', Some ''sha256:%PDF signed *'')]
   \<and> \<not> chain_ok (recordsOf 0 (run testEnv init signedTwice))"
  unfolding run_signedTwice sign_again
  by (simp add: recordsOf_def preparedState_def auditEntry_def contractDoc_def contract_def)

lemma chain_ok_from:
  assumes "list_all (laterOk h) rest"
    and "length (filter (\<lambda>r. action r = ''signed'') rest) \<le> 1"
    and "documentHashAfter p = None \<or> documentHashAfter p = Some h
         \<or> filter (\<lambda>r. action r = ''signed'') rest = []"
  shows "chain_ok (p # rest)"
  using assms
proof (induction rest arbitrary: p)
  case Nil
  then show ?case by simp
next
  case (Cons r rs)
  from Cons.prems(1) have r: "laterOk h r" and rs: "list_all (laterOk h) rs" by simp_all
  show ?case
  proof (cases "action r = ''signed''")
    case True
    with Cons.prems(2) have none: "filter (\<lambda>r. action r = ''signed'') rs = []" by simp
    from True r have hb: "documentHashBefore r = Some h" by (simp add: laterOk_def)
    from True Cons.prems(3) have "documentHashAfter p = None \<or> documentHashAfter p = Some h"
      by simp
    with hb have link: "(case (documentHashAfter p, documentHashBefore r) of
        (Some a, Some b) \<Rightarrow> a = b | _ \<Rightarrow> True)"
      by (auto split: option.splits)
    from rs none have "chain_ok (r # rs)" by (intro Cons.IH) simp_all
    with link show ?thesis by simp
  next
    case False
    with r have hb: "documentHashBefore r = None" and ha: "documentHashAfter r = None"
      by (simp_all add: laterOk_def)
    from hb have link: "(case (documentHashAfter p, documentHashBefore r) of
        (Some a, Some b) \<Rightarrow> a = b | _ \<Rightarrow> True)"
      by (simp split: option.splits)
    from False Cons.prems(2) have "length (filter (\<lambda>r. action r = ''signed'') rs) \<le> 1"
      by simp
    with rs ha have "chain_ok (r # rs)" by (intro Cons.IH) simp_all
    with link show ?thesis by simp
  qed
qed

lemma uploadedFirst_chain:
  assumes "uploadedFirst h rs"
    and "length (filter (\<lambda>r. action r = ''signed'') rs) \<le> 1"
  shows "chain_ok rs \<and> chain_ok (digestRecords rs)"
proof (cases rs)
  case Nil
  with assms show ?thesis by simp
next
  case (Cons p rest)
  with assms(1) have p: "action p = ''uploaded''" "documentHashAfter p = Some h"
    and rest: "list_all (laterOk h) rest"
    by simp_all
  from Cons assms(2) p have few: "length (filter (\<lambda>r. action r = ''signed'') rest) \<le> 1"
    by simp
  from p(2) have start: "documentHashAfter p = None \<or> documentHashAfter p = Some h
      \<or> filter (\<lambda>r. action r = ''signed'') rest = []"
    by simp
  from rest few start have one: "chain_ok (p # rest)" by (rule chain_ok_from)
  have drest: "list_all (laterOk h) (digestRecords rest)"
    using rest by (simp add: digestRecords_def list_all_iff)
  have "filter (\<lambda>r. action r = ''signed'') (digestRecords rest)
      = filter (\<lambda>r. action r = ''signed'') rest"
    using rest unfolding digestRecords_def filter_filter
    by (intro filter_cong) (auto simp: list_all_iff laterOk_def)
  with few have dfew: "length (filter (\<lambda>r. action r = ''signed'') (digestRecords rest)) \<le> 1"
    by simp
  from p(2) have "documentHashAfter p = None \<or> documentHashAfter p = Some h
      \<or> filter (\<lambda>r. action r = ''signed'') (digestRecords rest) = []"
    by simp
  with drest dfew have "chain_ok (p # digestRecords rest)"
    by (rule chain_ok_from)
  moreover from p(2) have "digestRecords (p # rest) = p # digestRecords rest"
    by (simp add: digestRecords_def)
  ultimately show ?thesis using one Cons by simp
qed

text \<open>
  C2, amended. After any sequence of requests from the empty state whose uploads are
  stored under distinct names, for every document: the uploaded file is on disk and the
  document's \<open>originalHash\<close> is its digest; the document's first audit record is the
  \<open>uploaded\<close> record, with that digest as \<open>hashAfter\<close> and no \<open>hashBefore\<close>;
  every \<open>signed\<close> record carries both digests, and its \<open>hashBefore\<close> is the
  \<open>uploaded\<close> record's \<open>hashAfter\<close>; every other record carries no digest. So,
  as long as the document has been signed at most once, for every adjacent pair of its
  records where the earlier one has a \<open>hashAfter\<close> and the later one a \<open>hashBefore\<close>
  the two are equal, both in the trail itself and in the trail without the records
  that carry no digest.
\<close>

theorem hash_chain_up_to_first_signing:
  assumes "distinct (uploadNames reqs)"
    and "d \<in> set (db_documents (run e init reqs))"
  shows "(\<exists>b. disk (run e init reqs) (originalFileUrl d) = Some b
              \<and> originalHash d = calculateHash e b)
       \<and> (\<exists>r rest. recordsOf (docId d) (run e init reqs) = r # rest
              \<and> action r = ''uploaded'' \<and> documentHashBefore r = None
              \<and> documentHashAfter r = Some (originalHash d)
              \<and> (\<forall>r' \<in> set rest.
                    if action r' = ''signed''
                    then documentHashBefore r' = Some (originalHash d)
                         \<and> documentHashAfter r' \<noteq> None
                    else documentHashBefore r' = None \<and> documentHashAfter r' = None))
       \<and> (length (filter (\<lambda>r. action r = ''signed'')
                    (recordsOf (docId d) (run e init reqs))) \<le> 1 \<longrightarrow>
            chain_ok (recordsOf (docId d) (run e init reqs))
            \<and> chain_ok (digestRecords (recordsOf (docId d) (run e init reqs))))"
proof -
  define s where "s = run e init reqs"
  from assms(1) have "trailInv e ({} \<union> set (uploadNames reqs)) (run e init reqs)"
    by (intro run_trailInv init_trailInv) simp_all
  then have inv: "trailOn e (set (uploadNames reqs)) (disk s) (map docKey (db_documents s))
      (map documentId (db_fields s)) (db_auditLogs s) (nextId s)"
    by (simp add: trailInv_def s_def)
  from assms(2) have key: "(docId d, originalHash d, originalFileUrl d)
      \<in> set (map docKey (db_documents s))"
    by (force simp: docKey_def s_def)
  from inv key have stored: "\<exists>b. disk s (originalFileUrl d) = Some b
      \<and> originalHash d = calculateHash e b"
    unfolding trailOn_def by fastforce
  from inv key have first: "uploadedFirst (originalHash d) (recordsOf (docId d) s)"
    unfolding trailOn_def recordsOf_def by fastforce
  then obtain r rest where rs: "recordsOf (docId d) s = r # rest"
    by (cases "recordsOf (docId d) s") simp_all
  with first have shape: "action r = ''uploaded'' \<and> documentHashBefore r = None
      \<and> documentHashAfter r = Some (originalHash d)
      \<and> (\<forall>r' \<in> set rest.
            if action r' = ''signed''
            then documentHashBefore r' = Some (originalHash d) \<and> documentHashAfter r' \<noteq> None
            else documentHashBefore r' = None \<and> documentHashAfter r' = None)"
    by (simp add: list_all_iff laterOk_def)
  from first have chain: "length (filter (\<lambda>r. action r = ''signed'')
      (recordsOf (docId d) s)) \<le> 1 \<longrightarrow>
      chain_ok (recordsOf (docId d) s) \<and> chain_ok (digestRecords (recordsOf (docId d) s))"
    using uploadedFirst_chain by blast
  from stored rs shape chain show ?thesis
    unfolding s_def [symmetric] by blast
qed

theorem hash_chain_up_to_first_signing_witness:
  "distinct (uploadNames signedOnce)
   \<and> signedContract ''u2'' \<in> set (db_documents (run testEnv init signedOnce))
   \<and> disk (run testEnv init signedOnce) (originalFileUrl (signedContract ''u2''))
       = Some ''%PDF-1.7 contract''
   \<and> originalHash (signedContract ''u2'') = calculateHash testEnv ''%PDF-1.7 contract''
   \<and> map (\<lambda>r. (action r, documentHashBefore r, documentHashAfter r))
        (recordsOf (docId (signedContract ''u2'')) (run testEnv init signedOnce))
     = [(''uploaded'', None, Some ''sha256:%PDF-1.7 contract''),
        (''field_added'', None, None),
        (''signed'', Some ''sha256:%PDF-1.7 contract'', Some ''sha256:%PDF signed *'')]
   \<and> length (filter (\<lambda>r. action r = ''signed'')
               (recordsOf (docId (signedContract ''u2'')) (run testEnv init signedOnce))) \<le> 1
   \<and> chain_ok (recordsOf (docId (signedContract ''u2'')) (run testEnv init signedOnce))
   \<and> chain_ok (digestRecords
         (recordsOf (docId (signedContract ''u2'')) (run testEnv init signedOnce)))"
proof -
  have names: "distinct (uploadNames signedOnce)"
    by (simp add: signedOnce_def prepared_def)
  have doc: "signedContract ''u2'' \<in> set (db_documents (run testEnv init signedOnce))"
    unfolding run_signedOnce sign_prepared by simp
  have on_disk: "disk (run testEnv init signedOnce) (originalFileUrl (signedContract ''u2''))
       = Some ''%PDF-1.7 contract''"
    unfolding run_signedOnce sign_prepared
    by (simp add: signedContract_def contractDoc_def preparedState_def)
  have hash: "originalHash (signedContract ''u2'')
      = calculateHash testEnv ''%PDF-1.7 contract''"
    by (simp add: signedContract_def contractDoc_def calculateHash_def testEnv_def)
  have trail: "map (\<lambda>r. (action r, documentHashBefore r, documentHashAfter r))
        (recordsOf (docId (signedContract ''u2'')) (run testEnv init signedOnce))
     = [(''uploaded'', None, Some ''sha256:%PDF-1.7 contract''),
        (''field_added'', None, None),
        (''signed'', Some ''sha256:%PDF-1.7 contract'', Some ''sha256:%PDF signed *'')]"
    unfolding run_signedOnce sign_prepared
    by (simp add: recordsOf_def signedContract_def contractDoc_def preparedState_def
        auditEntry_def)
  have once: "length (filter (\<lambda>r. action r = ''signed'')
      (recordsOf (docId (signedContract ''u2'')) (run testEnv init signedOnce))) \<le> 1"
    unfolding run_signedOnce sign_prepared
    by (simp add: recordsOf_def signedContract_def contractDoc_def preparedState_def
        auditEntry_def)
  from hash_chain_up_to_first_signing [OF names doc] once names doc on_disk hash trail
  show ?thesis by blast
qed

end
